theory Spec2Isabelle
  imports Complex_Main
begin

section \<open>Text\<close>

text \<open>
  A Python \<open>str\<close> is a sequence of Unicode code points, here a list of integers. \<open>cps\<close> turns an ASCII literal of the source into its code points.

  What CPython does with a code point below 256 is written out (a negative number is no
  code point: it is in no class but \<open>\S\<close> and \<open>.\<close>, and no mapping changes it). What it does with a code
  point from 256 on is read from the Unicode database, which is far too large to write
  down: the database is a parameter \<open>u\<close> of the model, and nothing is assumed of it.
  \<^item> \<open>u_isalnum\<close>: \<open>str.isalnum\<close>, which with the underscore is the regex class \<open>\w\<close>;
  \<^item> \<open>u_isdecimal\<close>: \<open>str.isdecimal\<close>, the regex class \<open>\d\<close>;
  \<^item> \<open>u_isdigit\<close>: \<open>str.isdigit\<close>;
  \<^item> \<open>u_upper\<close>: the full upper-case mapping of one code point, one to three code
    points, given as the first and the rest;
  \<^item> \<open>u_lower\<close>: \<open>str.lower\<close> of a whole string (it is not a mapping of single code
    points: a capital sigma depends on its neighbours);
  \<^item> \<open>u_int\<close>: \<open>int(s)\<close> for a string of digits that are not all ASCII, \<open>None\<close>
    for its \<open>ValueError\<close>.
\<close>

type_synonym pystr = "int list"

definition cps :: "string \<Rightarrow> pystr" where
  "cps s = map of_char s"

record unicode =
  u_isalnum :: "int \<Rightarrow> bool"
  u_isdecimal :: "int \<Rightarrow> bool"
  u_isdigit :: "int \<Rightarrow> bool"
  u_upper :: "int \<Rightarrow> int \<times> int list"
  u_lower :: "pystr \<Rightarrow> pystr"
  u_int :: "pystr \<Rightarrow> int option"

text \<open>\<open>str.isspace\<close>, also the regex class \<open>\s\<close>: all 29 code points.\<close>

definition isspace :: "int \<Rightarrow> bool" where
  "isspace c = (c \<in> set [0x09, 0x0A, 0x0B, 0x0C, 0x0D, 0x1C, 0x1D, 0x1E, 0x1F, 0x20, 0x85, 0xA0,
       0x1680, 0x2000, 0x2001, 0x2002, 0x2003, 0x2004, 0x2005, 0x2006, 0x2007, 0x2008, 0x2009,
       0x200A, 0x2028, 0x2029, 0x202F, 0x205F, 0x3000])"

definition ascii_digit :: "int \<Rightarrow> bool" where
  "ascii_digit c = (48 \<le> c \<and> c \<le> 57)"

definition re_digit :: "unicode \<Rightarrow> int \<Rightarrow> bool" where
  "re_digit u c = (if c < 256 then ascii_digit c else u_isdecimal u c)"

definition isdigit_cp :: "unicode \<Rightarrow> int \<Rightarrow> bool" where
  "isdigit_cp u c =
     (if c < 256 then ascii_digit c \<or> c \<in> set [0xB2, 0xB3, 0xB9] else u_isdigit u c)"

definition re_word :: "unicode \<Rightarrow> int \<Rightarrow> bool" where
  "re_word u c =
     (if c < 256 then
        ascii_digit c \<or> (65 \<le> c \<and> c \<le> 90) \<or> c = 95 \<or> (97 \<le> c \<and> c \<le> 122)
        \<or> c \<in> set [0xAA, 0xB2, 0xB3, 0xB5, 0xB9, 0xBA, 0xBC, 0xBD, 0xBE]
        \<or> (0xC0 \<le> c \<and> c \<noteq> 0xD7 \<and> c \<noteq> 0xF7)
      else u_isalnum u c)"

text \<open>
  \<open>str.upper\<close> maps each code point by itself. Below 256: a to z and 0xE0 to 0xFE (not
  0xF7) move down by 32, 0xDF becomes \<open>SS\<close>, 0xB5 becomes U+039C and 0xFF becomes U+0178.
\<close>

definition upper_cp :: "unicode \<Rightarrow> int \<Rightarrow> pystr" where
  "upper_cp u c =
     (if c < 256 then
        (if (97 \<le> c \<and> c \<le> 122) \<or> (0xE0 \<le> c \<and> c \<le> 0xFE \<and> c \<noteq> 0xF7) then [c - 32]
         else if c = 0xDF then [0x53, 0x53]
         else if c = 0xB5 then [0x39C]
         else if c = 0xFF then [0x178]
         else [c])
      else (case u_upper u c of (a, rest) \<Rightarrow> a # rest))"

definition str_upper :: "unicode \<Rightarrow> pystr \<Rightarrow> pystr" where
  "str_upper u s = concat (map (upper_cp u) s)"

text \<open>
  \<open>str.lower\<close>. On a string of code points below 256, A to Z and 0xC0 to 0xDE (not 0xD7)
  move up by 32.
\<close>

definition lower_latin1 :: "int \<Rightarrow> int" where
  "lower_latin1 c =
     (if (65 \<le> c \<and> c \<le> 90) \<or> (0xC0 \<le> c \<and> c \<le> 0xDE \<and> c \<noteq> 0xD7) then c + 32 else c)"

definition str_lower :: "unicode \<Rightarrow> pystr \<Rightarrow> pystr" where
  "str_lower u s = (if list_all (\<lambda>c. c < 256) s then map lower_latin1 s else u_lower u s)"

definition str_strip :: "pystr \<Rightarrow> pystr" where
  "str_strip s = rev (dropWhile isspace (rev (dropWhile isspace s)))"

text \<open>\<open>s.split('\n')\<close>: never empty, \<open>''.split('\n') == ['']\<close>.\<close>

fun split_nl :: "pystr \<Rightarrow> pystr list" where
  "split_nl [] = [[]]"
| "split_nl (c # cs) =
     (if c = 0x0A then [] # split_nl cs
      else (case split_nl cs of [] \<Rightarrow> [[c]] | l # ls \<Rightarrow> (c # l) # ls))"

text \<open>\<open>s.split()\<close>: the maximal runs of non-whitespace code points.\<close>

fun split_ws :: "pystr \<Rightarrow> pystr list" where
  "split_ws [] = []"
| "split_ws (c # cs) =
     (if isspace c then split_ws cs
      else (case cs of
              [] \<Rightarrow> [[c]]
            | d # ds \<Rightarrow> if isspace d then [c] # split_ws cs
                        else (case split_ws cs of [] \<Rightarrow> [[c]] | w # ws \<Rightarrow> (c # w) # ws)))"

fun starts_with :: "'a list \<Rightarrow> 'a list \<Rightarrow> bool" where
  "starts_with [] s = True"
| "starts_with (p # ps) [] = False"
| "starts_with (p # ps) (c # cs) = (p = c \<and> starts_with ps cs)"

text \<open>\<open>sub in s\<close>.\<close>

fun contains :: "'a list \<Rightarrow> 'a list \<Rightarrow> bool" where
  "contains sub [] = (sub = [])"
| "contains sub (c # cs) = (starts_with sub (c # cs) \<or> contains sub cs)"


section \<open>Pattern library\<close>

text \<open>
  The seven patterns of \<open>LogParser.__init__\<close> are written in a small regular
  expression language that has exactly the constructs they use. Every quantifier of the
  patterns applies to a single-character class (\<open>Rep\<close>) except two optional groups
  (\<open>Opt\<close>). All literals of the patterns are ASCII.

  Matching is \<open>re.IGNORECASE\<close>: an ASCII letter of a pattern matches both of its cases,
  and in addition \<open>i\<close> matches U+0130 and U+0131, \<open>k\<close> matches U+212A, \<open>s\<close> matches
  U+017F; any other literal matches itself only.
\<close>

definition ascii_lower :: "int \<Rightarrow> int" where
  "ascii_lower c = (if 65 \<le> c \<and> c \<le> 90 then c + 32 else c)"

definition icase_eq :: "int \<Rightarrow> int \<Rightarrow> bool" where
  "icase_eq a c =
     (c = a \<or>
      (97 \<le> ascii_lower a \<and> ascii_lower a \<le> 122 \<and>
       (ascii_lower c = ascii_lower a
        \<or> (ascii_lower a = 105 \<and> (c = 0x130 \<or> c = 0x131))
        \<or> (ascii_lower a = 107 \<and> c = 0x212A)
        \<or> (ascii_lower a = 115 \<and> c = 0x17F))))"

datatype cclass = Digit | Word | Space | NonSpace | Dot | Lit int | OneOf pystr | NoneOf pystr

fun in_class :: "unicode \<Rightarrow> cclass \<Rightarrow> int \<Rightarrow> bool" where
  "in_class u Digit c = re_digit u c"
| "in_class u Word c = re_word u c"
| "in_class u Space c = isspace c"
| "in_class u NonSpace c = (\<not> isspace c)"
| "in_class u Dot c = (c \<noteq> 0x0A)"
| "in_class u (Lit a) c = icase_eq a c"
| "in_class u (OneOf as) c = list_ex (\<lambda>a. icase_eq a c) as"
| "in_class u (NoneOf as) c = (\<not> list_ex (\<lambda>a. icase_eq a c) as)"

datatype regex =
    Eps
  | Chr cclass
  | Seq regex regex
  | Alt regex regex
  | Opt regex
  | Rep nat "nat option" cclass
  | Grp string regex

text \<open>
  \<open>rmatch u r (s, g)\<close> lists every way \<open>r\<close> can match a prefix of \<open>s\<close>, as the rest of
  the input and the groups captured, in the order a backtracking matcher tries them:
  the left alternative first, the optional part before its omission, the longest
  repetition first. The head of the list is the match \<open>re.match\<close> reports.
\<close>

fun rmatch :: "unicode \<Rightarrow> regex \<Rightarrow> pystr \<times> (string \<times> pystr) list \<Rightarrow> (pystr \<times> (string \<times> pystr) list) list" where
  "rmatch u Eps st = [st]"
| "rmatch u (Chr k) (s, g) = (case s of [] \<Rightarrow> [] | c # cs \<Rightarrow> if in_class u k c then [(cs, g)] else [])"
| "rmatch u (Seq r1 r2) st = concat (map (rmatch u r2) (rmatch u r1 st))"
| "rmatch u (Alt r1 r2) st = rmatch u r1 st @ rmatch u r2 st"
| "rmatch u (Opt r) st = rmatch u r st @ [st]"
| "rmatch u (Rep lo hi k) (s, g) =
     (let n = length (takeWhile (in_class u k) s);
          m = (case hi of None \<Rightarrow> n | Some h \<Rightarrow> min h n)
      in map (\<lambda>j. (drop j s, g)) (rev [lo..<Suc m]))"
| "rmatch u (Grp name r) (s, g) =
     map (\<lambda>(s', g'). (s', (name, take (length s - length s') s) # g')) (rmatch u r (s, g))"

fun group_names :: "regex \<Rightarrow> string list" where
  "group_names Eps = []"
| "group_names (Chr k) = []"
| "group_names (Seq r1 r2) = group_names r1 @ group_names r2"
| "group_names (Alt r1 r2) = group_names r1 @ group_names r2"
| "group_names (Opt r) = group_names r"
| "group_names (Rep lo hi k) = []"
| "group_names (Grp name r) = name # group_names r"

text \<open>
  Two syntactic measures of a pattern, used to reason about what its groups capture:
  \<open>min_len r\<close> is a number of code points every match of \<open>r\<close> consumes, and
  \<open>binds n r\<close> says that every match of \<open>r\<close> captures a non-empty text in group \<open>n\<close>.
\<close>

fun min_len :: "regex \<Rightarrow> nat" where
  "min_len Eps = 0"
| "min_len (Chr k) = 1"
| "min_len (Seq r1 r2) = min_len r1 + min_len r2"
| "min_len (Alt r1 r2) = min (min_len r1) (min_len r2)"
| "min_len (Opt r) = 0"
| "min_len (Rep lo hi k) = lo"
| "min_len (Grp name r) = min_len r"

fun binds :: "string \<Rightarrow> regex \<Rightarrow> bool" where
  "binds n Eps = False"
| "binds n (Chr k) = False"
| "binds n (Seq r1 r2) = (binds n r2 \<or> (binds n r1 \<and> n \<notin> set (group_names r2)))"
| "binds n (Alt r1 r2) = (binds n r1 \<and> binds n r2)"
| "binds n (Opt r) = False"
| "binds n (Rep lo hi k) = False"
| "binds n (Grp name r) = (if name = n then 0 < min_len r else binds n r)"

text \<open>
  \<open>re.match(pattern, line, re.IGNORECASE)\<close> followed by \<open>match.groupdict()\<close>: every
  named group of the pattern is a key; a group that took no part in the match has the
  value \<open>None\<close>.
\<close>

definition re_match :: "unicode \<Rightarrow> regex \<Rightarrow> pystr \<Rightarrow> (string \<times> pystr option) list option" where
  "re_match u r s =
     (case rmatch u r (s, []) of
        [] \<Rightarrow> None
      | (rest, g) # _ \<Rightarrow> Some (map (\<lambda>n. (n, map_of g n)) (group_names r)))"

definition seqs :: "regex list \<Rightarrow> regex" where
  "seqs rs = foldr Seq rs Eps"

definition lit :: "char \<Rightarrow> regex" where
  "lit c = Chr (Lit (of_char c))"

definition lits :: "string \<Rightarrow> regex" where
  "lits s = seqs (map lit s)"

definition plus :: "cclass \<Rightarrow> regex" where
  "plus k = Rep 1 None k"

definition star :: "cclass \<Rightarrow> regex" where
  "star k = Rep 0 None k"

definition exactly :: "nat \<Rightarrow> cclass \<Rightarrow> regex" where
  "exactly n k = Rep n (Some n) k"

definition maybe :: "char \<Rightarrow> regex" where
  "maybe c = Rep 0 (Some 1) (Lit (of_char c))"

text \<open>\<open>\d{2}:\d{2}:\d{2}\<close>\<close>

definition hms :: regex where
  "hms = seqs [exactly 2 Digit, lit CHR '':'', exactly 2 Digit, lit CHR '':'', exactly 2 Digit]"

text \<open>\<open>\d{4}-\d{2}-\d{2}\<close>\<close>

definition ymd :: regex where
  "ymd = seqs [exactly 4 Digit, lit CHR ''-'', exactly 2 Digit, lit CHR ''-'', exactly 2 Digit]"

definition custom_domain :: regex where
  "custom_domain = seqs
     [Grp ''source'' (plus NonSpace), plus Space,
      Grp ''ip'' (plus NonSpace), plus Space,
      Grp ''timestamp'' (plus Digit), plus Space,
      Grp ''severity'' (plus Word), plus Space,
      Grp ''value'' (plus Digit)]"

definition standard :: regex where
  "standard = seqs
     [Grp ''timestamp'' (seqs [ymd, plus Space, hms, Opt (seqs [lit CHR ''.'', plus Digit])]),
      star Space, maybe CHR ''['',
      Grp ''severity'' (plus Word),
      maybe CHR '']'', star Space,
      Opt (Grp ''source'' (plus Word)),
      maybe CHR '':'', star Space,
      Grp ''message'' (star Dot)]"

definition apache :: regex where
  "apache = seqs
     [Grp ''timestamp'' (seqs [exactly 2 Digit, lit CHR ''/'', exactly 3 Word, lit CHR ''/'',
         exactly 4 Digit, lit CHR '':'', hms, plus Space, Chr (OneOf (cps ''+-'')), exactly 4 Digit]),
      plus Space, lit CHR ''['',
      Grp ''severity'' (plus Word),
      lit CHR '']'', plus Space,
      Grp ''message'' (star Dot)]"

definition syslog :: regex where
  "syslog = seqs
     [Grp ''timestamp'' (seqs [exactly 3 Word, plus Space, Rep 1 (Some 2) Digit, plus Space, hms]),
      plus Space,
      Grp ''source'' (plus Word), plus Space,
      Grp ''severity'' (plus Word), lit CHR '':'', plus Space,
      Grp ''message'' (star Dot)]"

definition java :: regex where
  "java = seqs
     [Grp ''timestamp'' (seqs [ymd, plus Space, hms, lit CHR '','', exactly 3 Digit]),
      plus Space,
      Grp ''severity'' (plus Word), plus Space,
      lit CHR ''['', Grp ''source'' (plus (NoneOf (cps '']''))), lit CHR '']'', plus Space,
      Grp ''message'' (star Dot)]"

definition simple :: regex where
  "simple = seqs
     [maybe CHR ''['',
      Grp ''severity''
        (Alt (lits ''ERROR'') (Alt (lits ''WARN'') (Alt (lits ''WARNING'') (Alt (lits ''INFO'')
        (Alt (lits ''DEBUG'') (Alt (lits ''TRACE'') (Alt (lits ''FATAL'') (lits ''CRITICAL'')))))))),
      maybe CHR '']'', star Space,
      Grp ''message'' (star Dot)]"

definition fallback :: regex where
  "fallback = Grp ''message'' (star Dot)"

text \<open>\<open>self.patterns\<close>, in the insertion order of the dictionary.\<close>

definition patterns :: "(string \<times> regex) list" where
  "patterns =
     [(''custom_domain'', custom_domain), (''standard'', standard), (''apache'', apache),
      (''syslog'', syslog), (''java'', java), (''simple'', simple), (''fallback'', fallback)]"

text \<open>\<open>self.severity_mapping\<close>\<close>

definition severity_mapping :: "(pystr \<times> pystr) list" where
  "severity_mapping = map (\<lambda>(k, v). (cps k, cps v))
     [(''FATAL'', ''FATAL''), (''CRITICAL'', ''FATAL''), (''ERROR'', ''ERROR''), (''ERR'', ''ERROR''),
      (''WARN'', ''WARNING''), (''WARNING'', ''WARNING''), (''INFO'', ''INFO''),
      (''INFORMATION'', ''INFO''), (''DEBUG'', ''DEBUG''), (''TRACE'', ''DEBUG''),
      (''NOTICE'', ''INFO''), (''TEST'', ''INFO''), (''REST'', ''INFO''), (''JSON'', ''INFO''),
      (''RAW'', ''INFO'')]"


section \<open>Line parser\<close>

text \<open>
  The entry built for one line is a Python dictionary. Its keys \<open>line_number\<close>,
  \<open>raw_line\<close> and \<open>pattern_used\<close> are always set (the name of a pattern is a constant
  of the program and stays a string); the other keys hold the named groups of the pattern
  and the defaults, each a text or \<open>None\<close>. They are the map \<open>dict\<close>:
  \<open>dict e k = None\<close> when the key is absent, \<open>Some None\<close> when its value is Python's
  \<open>None\<close>.
\<close>

record line_info =
  line_number :: nat
  raw_line :: pystr
  pattern_used :: string

record entry = line_info +
  dict :: "string \<rightharpoonup> pystr option"

definition setdefault :: "string \<Rightarrow> pystr option \<Rightarrow> (string \<rightharpoonup> pystr option) \<Rightarrow> (string \<rightharpoonup> pystr option)" where
  "setdefault k d e = (case e k of None \<Rightarrow> e(k \<mapsto> d) | Some v \<Rightarrow> e)"

text \<open>\<open>entry.get(k, default)\<close> inside an f-string: \<open>None\<close> prints as \<open>None\<close>.\<close>

definition get_fmt :: "(string \<rightharpoonup> pystr option) \<Rightarrow> string \<Rightarrow> string \<Rightarrow> pystr" where
  "get_fmt e k d = (case e k of None \<Rightarrow> cps d | Some None \<Rightarrow> cps ''None'' | Some (Some s) \<Rightarrow> s)"

definition build_entry :: "string \<Rightarrow> (string \<times> pystr option) list \<Rightarrow> pystr \<Rightarrow> nat \<Rightarrow> entry" where
  "build_entry pattern_name gd line line_num =
     (let e1 = map_of gd;
          e2 = (if pattern_name = ''custom_domain''
                then e1(''message'' \<mapsto> Some (get_fmt e1 ''source'' ''unknown'' @ cps '' '' @
                          get_fmt e1 ''ip'' ''unknown'' @ cps '' '' @ get_fmt e1 ''severity'' ''INFO'' @
                          cps '' '' @ get_fmt e1 ''value'' ''unknown''))
                else e1)
      in \<lparr>line_number = line_num, raw_line = line, pattern_used = pattern_name,
          dict = setdefault ''message'' (Some line)
                     (setdefault ''source'' (Some (cps ''unknown''))
                       (setdefault ''severity'' (Some (cps ''INFO''))
                         (setdefault ''timestamp'' None e2)))\<rparr>)"

fun try_patterns :: "unicode \<Rightarrow> (string \<times> regex) list \<Rightarrow> pystr \<Rightarrow> nat \<Rightarrow> entry option" where
  "try_patterns u [] line line_num = None"
| "try_patterns u ((pattern_name, pattern) # rest) line line_num =
     (case re_match u pattern line of
        Some gd \<Rightarrow> Some (build_entry pattern_name gd line line_num)
      | None \<Rightarrow> try_patterns u rest line line_num)"

text \<open>The dictionary returned when the loop over the patterns ends without a match.\<close>

definition basic_entry :: "pystr \<Rightarrow> nat \<Rightarrow> entry" where
  "basic_entry line line_num =
     \<lparr>line_number = line_num, raw_line = line, pattern_used = ''fallback'',
      dict = [''timestamp'' \<mapsto> None, ''severity'' \<mapsto> Some (cps ''INFO''),
                ''source'' \<mapsto> Some (cps ''unknown''), ''message'' \<mapsto> Some line]\<rparr>"

text \<open>\<open>LogParser._parse_single_line\<close>; \<open>None\<close> is the Python \<open>None\<close> of a blank line.\<close>

definition parse_single_line :: "unicode \<Rightarrow> pystr \<Rightarrow> nat \<Rightarrow> entry option" where
  "parse_single_line u line0 line_num =
     (let line = str_strip line0 in
      if line = [] then None
      else (case try_patterns u patterns line line_num of
              Some e \<Rightarrow> Some e
            | None \<Rightarrow> Some (basic_entry line line_num)))"

text \<open>
  The loop of \<open>LogParser.parse_logs\<close> over \<open>enumerate(lines, 1)\<close>. An entry always
  has keys, so \<open>if parsed_entry\<close> only filters \<open>None\<close>.
\<close>

fun parse_lines :: "unicode \<Rightarrow> nat \<Rightarrow> pystr list \<Rightarrow> entry list" where
  "parse_lines u line_num [] = []"
| "parse_lines u line_num (line # rest) =
     (if str_strip line = [] then parse_lines u (Suc line_num) rest
      else (case parse_single_line u line line_num of
              None \<Rightarrow> parse_lines u (Suc line_num) rest
            | Some parsed_entry \<Rightarrow> parsed_entry # parse_lines u (Suc line_num) rest))"

definition parsed_entries :: "unicode \<Rightarrow> pystr \<Rightarrow> entry list" where
  "parsed_entries u log_content = parse_lines u 1 (split_nl (str_strip log_content))"


section \<open>Timestamp coercion\<close>

datatype exn = ValueError | OSError | OverflowError

text \<open>
  An instant is a number of microseconds since the epoch. The standard library is
  outside the repository; its entry points are modelled as follows.

  \<open>int(s)\<close> on a string that passed \<open>str.isdigit\<close>: a string of ASCII digits has its
  decimal value, unless it has more than 4300 digits (\<open>ValueError\<close>); a superscript
  digit below 256 is no decimal digit (\<open>ValueError\<close>); any other string is left to
  \<open>u_int\<close>.

  \<open>datetime.fromtimestamp(n)\<close>, as documented for CPython with a 64-bit \<open>time_t\<close>:
  \<open>OverflowError\<close> when \<open>n\<close> does not fit \<open>time_t\<close>; beyond the years 1 to 9999
  \<open>ValueError\<close> (or \<open>OSError\<close> where the C library already rejects the value: the
  caller treats the two alike, the model reports \<open>ValueError\<close>); the local time zone
  is taken to be UTC.

  \<open>datetime.strptime\<close> and \<open>pandas.to_datetime(errors='coerce')\<close> are parameters of
  the model: \<open>strptime s fmt = None\<close> stands for its \<open>ValueError\<close>,
  \<open>to_datetime s = None\<close> for \<open>NaT\<close> (or for an exception, which the bare
  \<open>except\<close> turns into \<open>None\<close>).
\<close>

definition str_isdigit :: "unicode \<Rightarrow> pystr \<Rightarrow> bool" where
  "str_isdigit u s = (s \<noteq> [] \<and> list_all (isdigit_cp u) s)"

definition py_int :: "unicode \<Rightarrow> pystr \<Rightarrow> exn + int" where
  "py_int u s =
     (if list_all ascii_digit s then
        (if 4300 < length s then Inl ValueError
         else Inr (foldl (\<lambda>a c. 10 * a + (c - 48)) 0 s))
      else if list_all (\<lambda>c. c < 256) s then Inl ValueError
      else (case u_int u s of None \<Rightarrow> Inl ValueError | Some n \<Rightarrow> Inr n))"

definition fromtimestamp :: "int \<Rightarrow> exn + int" where
  "fromtimestamp n =
     (if n < - (2 ^ 63) \<or> 2 ^ 63 \<le> n then Inl OverflowError
      else if n < - 62135596800 \<or> 253402300799 < n then Inl ValueError
      else Inr (n * 1000000))"

definition formats :: "string list" where
  "formats =
     [''%Y-%m-%d %H:%M:%S.%f'', ''%Y-%m-%d %H:%M:%S'', ''%Y-%m-%d %H:%M'',
      ''%d/%b/%Y:%H:%M:%S %z'', ''%b %d %H:%M:%S'', ''%Y-%m-%d'', ''%m/%d/%Y %H:%M:%S'',
      ''%m-%d-%Y %H:%M:%S'', ''%Y%m%d %H:%M:%S'', ''%Y-%m-%d %H:%M:%S,%f'']"

text \<open>
  The loop over \<open>formats\<close>. It rewrites \<open>timestamp_str\<close> (commas to dots) when it
  reaches the Java format, so the string is threaded through and returned.
\<close>

fun try_formats :: "(pystr \<Rightarrow> string \<Rightarrow> int option) \<Rightarrow> string list \<Rightarrow> pystr \<Rightarrow> int option \<times> pystr" where
  "try_formats strptime [] s = (None, s)"
| "try_formats strptime (fmt # fmts) s =
     (let s' = (if contains '',%f'' fmt \<and> 44 \<in> set s
                then map (\<lambda>c. if c = 44 then 46 else c) s else s)
      in case strptime s' fmt of
           Some t \<Rightarrow> (Some t, s')
         | None \<Rightarrow> try_formats strptime fmts s')"

text \<open>
  \<open>LogParser._parse_timestamp\<close>. \<open>Inl e\<close>: the exception \<open>e\<close> leaves the function;
  \<open>Inr None\<close>: the result is null.
\<close>

definition parse_timestamp ::
  "unicode \<Rightarrow> (pystr \<Rightarrow> string \<Rightarrow> int option) \<Rightarrow> (pystr \<Rightarrow> int option) \<Rightarrow> pystr option \<Rightarrow> exn + int option" where
  "parse_timestamp u strptime to_datetime timestamp_str =
     (case timestamp_str of
        None \<Rightarrow> Inr None
      | Some raw \<Rightarrow>
          if raw = [] then Inr None
          else
            let s = str_strip raw;
                by_format = (case try_formats strptime formats s of
                               (Some t, s') \<Rightarrow> Inr (Some t)
                             | (None, s') \<Rightarrow> Inr (to_datetime s'))
            in if str_isdigit u s then
                 (case (case py_int u s of Inl e \<Rightarrow> Inl e | Inr n \<Rightarrow> fromtimestamp n) of
                    Inr t \<Rightarrow> Inr (Some t)
                  | Inl e \<Rightarrow> if e = ValueError \<or> e = OSError then by_format else Inl e)
               else by_format)"


section \<open>Batch parsing\<close>

text \<open>
  One row of the parsed table. A null cell (\<open>None\<close>, \<open>NaN\<close>, \<open>NaT\<close>) is \<open>None\<close>.
\<close>

record log_record = line_info +
  timestamp :: "int option"
  severity :: "pystr option"
  source :: pystr
  message :: "pystr option"
  has_timestamp :: bool
  message_length :: "nat option"
  word_count :: "nat option"

text \<open>
  The cell of column \<open>k\<close> in the frame built from the entries: a text, or null when
  the key is absent or holds \<open>None\<close>.
\<close>

definition cell :: "entry \<Rightarrow> string \<Rightarrow> pystr option" where
  "cell e k = (case dict e k of Some (Some s) \<Rightarrow> Some s | _ \<Rightarrow> None)"

text \<open>\<open>lambda x: self.severity_mapping.get(x, x) if x else 'INFO'\<close> after \<open>str.upper\<close>.\<close>

definition normalize_severity :: "unicode \<Rightarrow> pystr \<Rightarrow> pystr" where
  "normalize_severity u s =
     (let x = str_upper u s in
      if x = [] then cps ''INFO''
      else (case map_of severity_mapping x of Some v \<Rightarrow> v | None \<Rightarrow> x))"

text \<open>\<open>df['timestamp'].apply(self._parse_timestamp)\<close>: the first exception ends it.\<close>

fun apply_parse_timestamp ::
  "unicode \<Rightarrow> (pystr \<Rightarrow> string \<Rightarrow> int option) \<Rightarrow> (pystr \<Rightarrow> int option) \<Rightarrow> pystr option list \<Rightarrow> exn + int option list" where
  "apply_parse_timestamp u strptime to_datetime [] = Inr []"
| "apply_parse_timestamp u strptime to_datetime (x # xs) =
     (case parse_timestamp u strptime to_datetime x of
        Inl e \<Rightarrow> Inl e
      | Inr t \<Rightarrow> (case apply_parse_timestamp u strptime to_datetime xs of
                    Inl e \<Rightarrow> Inl e
                  | Inr ts \<Rightarrow> Inr (t # ts)))"

definition post_process_row :: "unicode \<Rightarrow> entry \<Rightarrow> int option \<Rightarrow> log_record" where
  "post_process_row u e t =
     (let m = map_option str_strip (cell e ''message'') in
      \<lparr>line_number = line_number e, raw_line = raw_line e, pattern_used = pattern_used e,
       timestamp = t,
       severity = map_option (normalize_severity u) (cell e ''severity''),
       source = str_strip (case cell e ''source'' of None \<Rightarrow> cps ''unknown'' | Some s \<Rightarrow> s),
       message = m,
       has_timestamp = (t \<noteq> None),
       message_length = map_option length m,
       word_count = map_option (\<lambda>x. length (split_ws x)) m\<rparr>)"

text \<open>\<open>LogParser._post_process_dataframe\<close>\<close>

definition post_process_dataframe ::
  "unicode \<Rightarrow> (pystr \<Rightarrow> string \<Rightarrow> int option) \<Rightarrow> (pystr \<Rightarrow> int option) \<Rightarrow> entry list \<Rightarrow> exn + log_record list" where
  "post_process_dataframe u strptime to_datetime df =
     (case apply_parse_timestamp u strptime to_datetime (map (\<lambda>e. cell e ''timestamp'') df) of
        Inl e \<Rightarrow> Inl e
      | Inr ts \<Rightarrow> Inr (map (\<lambda>(e, t). post_process_row u e t) (zip df ts)))"

text \<open>\<open>LogParser.parse_logs\<close>; the empty frame is the empty list of rows.\<close>

definition parse_logs ::
  "unicode \<Rightarrow> (pystr \<Rightarrow> string \<Rightarrow> int option) \<Rightarrow> (pystr \<Rightarrow> int option) \<Rightarrow> pystr \<Rightarrow> exn + log_record list" where
  "parse_logs u strptime to_datetime log_content =
     (let entries = parsed_entries u log_content in
      if entries = [] then Inr []
      else post_process_dataframe u strptime to_datetime entries)"


section \<open>Anomaly detector\<close>

text \<open>
  The detector works on a table of rows with the parser's columns. Scores are NumPy
  floats in the source; the model computes with exact rationals. \<open>len(df) * 0.2\<close>
  is compared with and truncated to an integer only, which on row counts agrees with
  the exact fifth.

  The libraries the detector calls are parameters of the model, the fields of \<open>m\<close>;
  nothing is assumed of them.
  \<^item> \<open>isolation_forest\<close> and \<open>dbscan\<close> say which rows the fitted isolation forest and
    the TF-IDF/DBSCAN clustering label \<open>-1\<close>. A failure inside either method is the
    labelling that marks no row, since the method then returns zeros.
  \<^item> \<open>pandas_raises\<close> says whether pandas raises inside the \<open>try\<close> block of the temporal
    method while it sorts the stamped rows, subtracts neighbours and reads the seconds (it
    raises \<open>TypeError\<close> when time-zone-aware and naive values meet in the column, which
    the instants of the model do not distinguish): the handler then returns zeros.
  \<^item> \<open>sort_values_ties\<close> and \<open>argsort_ties\<close> fix what the sorts of
    \<open>DataFrame.sort_values\<close> and \<open>np.argsort\<close> do with equal keys. Both are quicksorts
    and not stable: among equal keys any order can come out. (Scores that are equal in exact
    arithmetic can differ in the last bit as floats; the order \<open>np.argsort\<close> then gives
    them is one of the orders of equal keys.)
\<close>

record models =
  isolation_forest :: "log_record list \<Rightarrow> nat \<Rightarrow> bool"
  dbscan :: "log_record list \<Rightarrow> nat \<Rightarrow> bool"
  pandas_raises :: "log_record list \<Rightarrow> bool"
  sort_values_ties :: "int list \<Rightarrow> nat list"
  argsort_ties :: "rat list \<Rightarrow> nat list"

text \<open>
  A sort that is not stable returns the positions \<open>0, ..., n - 1\<close> in some order that is
  ascending in the keys. \<open>unstable_argsort start keys\<close> is the stable sort of the
  arrangement \<open>start\<close> of the positions (of \<open>0, ..., n - 1\<close> itself when \<open>start\<close> is no
  arrangement of them). Every \<open>start\<close> gives an ascending order of the positions, and every
  ascending order of the positions is the result for some \<open>start\<close>, namely itself: as
  \<open>start\<close> ranges over all lists, the results are exactly the orders an unstable sort can
  return.
\<close>

definition arrangement :: "nat list \<Rightarrow> nat \<Rightarrow> nat list" where
  "arrangement start n =
     (if length start = n \<and> distinct start \<and> list_all (\<lambda>i. i < n) start then start else [0..<n])"

definition unstable_argsort :: "nat list \<Rightarrow> 'k::linorder list \<Rightarrow> nat list" where
  "unstable_argsort start keys = sort_key (\<lambda>i. keys ! i) (arrangement start (length keys))"

definition zeros :: "nat \<Rightarrow> rat list" where
  "zeros n = replicate n 0"

text \<open>\<open>AnomalyDetector._detect_statistical_anomalies\<close>\<close>

definition detect_statistical_anomalies :: "models \<Rightarrow> log_record list \<Rightarrow> rat list" where
  "detect_statistical_anomalies m df =
     (if length df < 5 then zeros (length df)
      else map (\<lambda>i. if isolation_forest m df i then 1 else 0) [0..<length df])"

text \<open>\<open>AnomalyDetector._detect_text_anomalies\<close>\<close>

definition detect_text_anomalies :: "models \<Rightarrow> log_record list \<Rightarrow> rat list" where
  "detect_text_anomalies m df =
     (if length df < 5 then zeros (length df)
      else map (\<lambda>i. if dbscan m df i then 1 else 0) [0..<length df])"

text \<open>
  The rows with a non-null timestamp, each with its position in the table. A table is the
  list of its rows: its index is the default one, \<open>0, ..., n - 1\<close>, as in every table the
  parser builds, so that the label of a row is its position.
\<close>

fun with_time :: "nat \<Rightarrow> log_record list \<Rightarrow> (nat \<times> int) list" where
  "with_time i [] = []"
| "with_time i (r # rs) =
     (case timestamp r of
        None \<Rightarrow> with_time (Suc i) rs
      | Some t \<Rightarrow> (i, t) # with_time (Suc i) rs)"

text \<open>\<open>np.percentile(a, q)\<close> with the default linear interpolation, for a non-empty \<open>a\<close>.\<close>

definition percentile :: "rat list \<Rightarrow> rat \<Rightarrow> rat" where
  "percentile a q =
     (let xs = sort a;
          pos = q / 100 * of_nat (length xs - 1);
          lo = nat \<lfloor>pos\<rfloor>;
          hi = min (Suc lo) (length xs - 1)
      in xs ! lo + (pos - of_nat lo) * (xs ! hi - xs ! lo))"

text \<open>\<open>AnomalyDetector._detect_temporal_anomalies\<close>\<close>

definition detect_temporal_anomalies :: "models \<Rightarrow> log_record list \<Rightarrow> rat list" where
  "detect_temporal_anomalies m df =
     (let df_with_time = with_time 0 df in
      if length df_with_time < 10 then zeros (length df)
      else if pandas_raises m df then zeros (length df)
      else
        let stamps = map snd df_with_time;
            sorted = map (\<lambda>j. df_with_time ! j) (unstable_argsort (sort_values_ties m stamps) stamps);
            sorted_stamps = map snd sorted;
            time_diffs = map (\<lambda>(a, b). (of_int (b - a) :: rat) / 1000000)
                           (zip sorted_stamps (tl sorted_stamps))
        in if length time_diffs < 5 then zeros (length df)
           else
             let q75 = percentile time_diffs 75;
                 q25 = percentile time_diffs 25;
                 iqr = q75 - q25;
                 lower_bound = q25 - 1.5 * iqr;
                 upper_bound = q75 + 1.5 * iqr;
                 anomalous_time_diffs = map (\<lambda>d. d < lower_bound \<or> upper_bound < d) time_diffs;
                 time_diff_indices = tl (map fst sorted)
             in fold (\<lambda>(original_idx, is_anomaly) acc. acc[original_idx := (if is_anomaly then 1 else 0)])
                  (zip time_diff_indices anomalous_time_diffs) (zeros (length df)))"

text \<open>\<open>df['severity'].value_counts()\<close>: each non-null severity with its number of rows.\<close>

definition value_counts :: "log_record list \<Rightarrow> (pystr \<times> nat) list" where
  "value_counts df =
     map (\<lambda>s. (s, length (filter (\<lambda>r. severity r = Some s) df)))
       (remdups (List.map_filter severity df))"

definition expected_ranges :: "(pystr \<times> rat \<times> rat) list" where
  "expected_ranges =
     [(cps ''ERROR'', 0.001, 0.1), (cps ''FATAL'', 0.0001, 0.05), (cps ''WARNING'', 0.01, 0.3),
      (cps ''INFO'', 0.3, 0.95), (cps ''DEBUG'', 0.0, 0.5)]"

text \<open>\<open>severity_anomalies[df['severity'] == sev] = v\<close>\<close>

definition set_mask :: "log_record list \<Rightarrow> pystr \<Rightarrow> rat \<Rightarrow> rat list \<Rightarrow> rat list" where
  "set_mask df sev v scores = map (\<lambda>(r, x). if severity r = Some sev then v else x) (zip df scores)"

definition severity_frequencies :: "log_record list \<Rightarrow> (pystr \<times> rat) list" where
  "severity_frequencies df = map (\<lambda>(s, c). (s, of_nat c / of_nat (length df))) (value_counts df)"

text \<open>The observed frequency of a severity: its number of rows over the number of rows.\<close>

definition frequency :: "log_record list \<Rightarrow> pystr \<Rightarrow> rat" where
  "frequency df s = of_nat (length (filter (\<lambda>r. severity r = Some s) df)) / of_nat (length df)"

text \<open>\<open>AnomalyDetector._detect_severity_anomalies\<close>\<close>

definition detect_severity_anomalies :: "log_record list \<Rightarrow> rat list" where
  "detect_severity_anomalies df =
     (let banded = fold (\<lambda>(sev, min_freq, max_freq) acc.
                      case map_of (severity_frequencies df) sev of
                        None \<Rightarrow> acc
                      | Some freq \<Rightarrow> if freq < min_freq \<or> max_freq < freq
                                     then set_mask df sev 0.5 acc else acc)
                    expected_ranges (zeros (length df));
          rare_severities = map fst (filter (\<lambda>(s, f). f < 0.01) (severity_frequencies df))
      in fold (\<lambda>sev acc. set_mask df sev 1.0 acc) rare_severities banded)"

text \<open>
  The ten suspicious patterns all have the shape \<open>a.*b\<close> or \<open>a.*b.*c\<close>; each is the
  list of its literal pieces. \<open>gap_match ps s\<close>: \<open>s\<close> starts with a match of
  \<open>.*p\<close> for each remaining piece in turn (the dot does not match a newline).
\<close>

definition suspicious_patterns :: "pystr list list" where
  "suspicious_patterns = map (map cps)
     [[''failed'', ''login''], [''unauthorized'', ''access''], [''connection'', ''refused''],
      [''timeout'', ''exceeded''], [''memory'', ''leak''], [''stack'', ''overflow''],
      [''null'', ''pointer''], [''out'', ''of'', ''memory''], [''deadlock'', ''detected''],
      [''permission'', ''denied'']]"

fun gap_match :: "pystr list \<Rightarrow> pystr \<Rightarrow> bool" where
  "gap_match [] s = True"
| "gap_match (p # ps) [] = (p = [] \<and> gap_match ps [])"
| "gap_match (p # ps) (c # cs) =
     ((starts_with p (c # cs) \<and> gap_match ps (drop (length p) (c # cs)))
      \<or> (c \<noteq> 0x0A \<and> gap_match (p # ps) cs))"

definition match_here :: "pystr list \<Rightarrow> pystr \<Rightarrow> bool" where
  "match_here ps s =
     (case ps of [] \<Rightarrow> True | p # rest \<Rightarrow> starts_with p s \<and> gap_match rest (drop (length p) s))"

text \<open>\<open>re.search(pattern, s)\<close> for such a pattern.\<close>

fun re_search :: "pystr list \<Rightarrow> pystr \<Rightarrow> bool" where
  "re_search ps [] = match_here ps []"
| "re_search ps (c # cs) = (match_here ps (c # cs) \<or> re_search ps cs)"

text \<open>\<open>re.search(r'[^\x00-\x7F]', message)\<close>\<close>

definition has_non_ascii :: "pystr \<Rightarrow> bool" where
  "has_non_ascii s = list_ex (\<lambda>c. 128 \<le> c) s"

text \<open>\<open>re.search(r'(.)\1{10,}', message)\<close>: a code point other than newline and ten more copies of it.\<close>

fun has_repeated :: "pystr \<Rightarrow> bool" where
  "has_repeated [] = False"
| "has_repeated (c # cs) =
     ((c \<noteq> 0x0A \<and> 10 \<le> length (takeWhile (\<lambda>d. d = c) cs)) \<or> has_repeated cs)"

definition pattern_score :: "unicode \<Rightarrow> pystr \<Rightarrow> rat" where
  "pattern_score u msg =
     (let message_lower = str_lower u msg;
          a = fold (\<lambda>pattern acc. if re_search pattern message_lower then max acc 0.7 else acc)
                suspicious_patterns 0;
          b = (if 1000 < length msg then max a 0.3 else a);
          c = (if has_non_ascii msg then max b 0.2 else b)
      in if has_repeated msg then max c 0.4 else c)"

text \<open>\<open>AnomalyDetector._detect_pattern_anomalies\<close>; \<open>fillna('')\<close> turns a null message into the empty string.\<close>

definition detect_pattern_anomalies :: "unicode \<Rightarrow> log_record list \<Rightarrow> rat list" where
  "detect_pattern_anomalies u df =
     map (\<lambda>r. pattern_score u (case message r of None \<Rightarrow> [] | Some msg \<Rightarrow> msg)) df"

definition weights :: "rat list" where
  "weights = [0.2, 0.25, 0.2, 0.15, 0.2]"

text \<open>The weights cut to the number of methods and normalised.\<close>

definition method_weights :: "nat \<Rightarrow> rat list" where
  "method_weights k = (let w = take k weights in map (\<lambda>x. x / sum_list w) w)"

text \<open>\<open>np.average(combined_scores, axis=1, weights=weights)\<close>, one value for each of \<open>n\<close> rows.\<close>

definition final_scores :: "rat list list \<Rightarrow> nat \<Rightarrow> rat list" where
  "final_scores anomaly_scores n =
     (let w = method_weights (length anomaly_scores) in
      map (\<lambda>i. sum_list (map (\<lambda>(col, wj). col ! i * wj) (zip anomaly_scores w)) / sum_list w) [0..<n])"

text \<open>\<open>np.argsort\<close>: the positions in ascending order of score.\<close>

definition argsort :: "models \<Rightarrow> rat list \<Rightarrow> nat list" where
  "argsort m xs = unstable_argsort (argsort_ties m xs) xs"

text \<open>\<open>a[-k:]\<close> for \<open>k \<ge> 0\<close>: \<open>a[-0:]\<close> is the whole list.\<close>

definition last_k :: "nat \<Rightarrow> 'a list \<Rightarrow> 'a list" where
  "last_k k xs = (if k = 0 then xs else drop (length xs - k) xs)"

text \<open>
  \<open>AnomalyDetector._combine_anomaly_scores\<close>. \<open>np.column_stack\<close> raises on columns of
  different lengths and \<open>np.average\<close> on more columns than weights; the handler turns both
  into the empty list.
\<close>

definition combine_anomaly_scores :: "models \<Rightarrow> rat list list \<Rightarrow> log_record list \<Rightarrow> nat list" where
  "combine_anomaly_scores m anomaly_scores df =
     (case anomaly_scores of
        [] \<Rightarrow> []
      | col # cols \<Rightarrow>
          if (\<exists>c \<in> set cols. length c \<noteq> length col) \<or> length weights < length anomaly_scores then []
          else
            let scores = final_scores anomaly_scores (length col);
                threshold = 0.3;
                anomaly_indices = filter (\<lambda>i. threshold < scores ! i) [0..<length scores]
            in if length df < 5 * length anomaly_indices
               then last_k (length df div 5) (argsort m scores)
               else anomaly_indices)"

text \<open>\<open>df['timestamp'].notna().sum()\<close>\<close>

definition notna_count :: "log_record list \<Rightarrow> nat" where
  "notna_count df = length (filter (\<lambda>r. timestamp r \<noteq> None) df)"

text \<open>The list \<open>anomaly_scores\<close> that \<open>detect_anomalies\<close> hands to the combiner.\<close>

definition anomaly_scores :: "unicode \<Rightarrow> models \<Rightarrow> log_record list \<Rightarrow> rat list list" where
  "anomaly_scores u m df =
     [detect_statistical_anomalies m df, detect_text_anomalies m df]
     @ (if 10 < notna_count df then [detect_temporal_anomalies m df] else [])
     @ [detect_severity_anomalies df, detect_pattern_anomalies u df]"

text \<open>\<open>AnomalyDetector.detect_anomalies\<close>\<close>

definition detect_anomalies :: "unicode \<Rightarrow> models \<Rightarrow> log_record list \<Rightarrow> nat list" where
  "detect_anomalies u m df =
     (if length df < 10 then []
      else combine_anomaly_scores m (anomaly_scores u m df) df)"


section \<open>Example inputs\<close>

text \<open>
  A Unicode database that is never consulted on ASCII text, and libraries that flag no
  row, never raise and leave equal keys in position order.
\<close>

definition plain :: unicode where
  "plain = \<lparr>u_isalnum = (\<lambda>c. False), u_isdecimal = (\<lambda>c. False), u_isdigit = (\<lambda>c. False),
            u_upper = (\<lambda>c. (c, [])), u_lower = (\<lambda>s. s), u_int = (\<lambda>s. None)\<rparr>"

definition quiet :: models where
  "quiet = \<lparr>isolation_forest = (\<lambda>df i. False), dbscan = (\<lambda>df i. False),
            pandas_raises = (\<lambda>df. False), sort_values_ties = (\<lambda>keys. []),
            argsort_ties = (\<lambda>keys. [])\<rparr>"

text \<open>
  Libraries that flag rows 3 and 6 as statistical outliers and every row as text noise,
  and whose \<open>np.argsort\<close> leaves equal scores in descending position order.
\<close>

definition busy :: models where
  "busy = quiet\<lparr>isolation_forest := (\<lambda>df i. i = 3 \<or> i = 6), dbscan := (\<lambda>df i. True),
                 argsort_ties := (\<lambda>keys. rev [0..<length keys])\<rparr>"

text \<open>A record of severity \<open>INFO\<close>, stamped \<open>i\<close> seconds after the epoch.\<close>

definition example_row :: "nat \<Rightarrow> log_record" where
  "example_row i =
     \<lparr>line_number = Suc i, raw_line = cps ''INFO unauthorized access'', pattern_used = ''simple'',
      timestamp = Some (int i * 1000000), severity = Some (cps ''INFO''), source = cps ''unknown'',
      message = Some (cps ''unauthorized access''), has_timestamp = True,
      message_length = Some 19, word_count = Some 2\<rparr>"

definition ten_stamped :: "log_record list" where
  "ten_stamped = map example_row [0..<10]"

text \<open>A record without a timestamp, of the given severity and message.\<close>

definition plain_row :: "string \<Rightarrow> string \<Rightarrow> log_record" where
  "plain_row sev msg =
     \<lparr>line_number = 1, raw_line = cps msg, pattern_used = ''fallback'',
      timestamp = None, severity = Some (cps sev), source = cps ''unknown'',
      message = Some (cps msg), has_timestamp = False,
      message_length = Some (length msg), word_count = Some (length (split_ws (cps msg)))\<rparr>"

text \<open>
  200 records: 120 \<open>DEBUG\<close>, 67 \<open>INFO\<close>, 10 \<open>NOTE\<close>, one \<open>FATAL\<close>, one \<open>WARNING\<close>, one
  \<open>AUDIT\<close>.
\<close>

definition two_hundred :: "log_record list" where
  "two_hundred =
     replicate 120 (plain_row ''DEBUG'' ''ok'') @ replicate 67 (plain_row ''INFO'' ''ok'')
     @ replicate 10 (plain_row ''NOTE'' ''ok'')
     @ [plain_row ''FATAL'' ''ok'', plain_row ''WARNING'' ''ok'', plain_row ''AUDIT'' ''ok'']"

text \<open>
  101 records without timestamps: 100 \<open>INFO\<close> and one \<open>AUDIT\<close> whose message repeats
  one character eleven times.
\<close>

definition hundred_and_one :: "log_record list" where
  "hundred_and_one = replicate 100 (plain_row ''INFO'' ''ok'') @ [plain_row ''AUDIT'' ''aaaaaaaaaaa'']"

text \<open>100 records without timestamps whose messages all contain \<open>unauthorized access\<close>.\<close>

definition hundred_rows :: "log_record list" where
  "hundred_rows = replicate 100 (plain_row ''INFO'' ''unauthorized access'')"

text \<open>Two blank lines, then \<open>foo\<close>.\<close>

definition blank_blank_foo :: pystr where
  "blank_blank_foo = [0x0A, 0x0A] @ cps ''foo''"

text \<open>\<open>foo\<close>, a blank line, then \<open>bar\<close>.\<close>

definition foo_blank_bar :: pystr where
  "foo_blank_bar = cps ''foo'' @ [0x0A, 0x0A] @ cps ''bar''"

text \<open>
  A line that no pattern before \<open>fallback\<close> matches, then a line of the custom-domain
  format whose timestamp is twenty nines.
\<close>

definition gibberish_then_overflow :: pystr where
  "gibberish_then_overflow =
     cps ''###???***'' @ [0x0A] @ cps ''a.com 1.2.3.4 99999999999999999999 INFO 5''"


section \<open>Sorts that are not stable\<close>

lemma length_arrangement: "length (arrangement start n) = n"
  by (simp add: arrangement_def)

lemma distinct_arrangement: "distinct (arrangement start n)"
  by (simp add: arrangement_def)

lemma set_arrangement: "set (arrangement start n) = {..<n}"
proof (cases "length start = n \<and> distinct start \<and> list_all (\<lambda>i. i < n) start")
  case True
  then have "set start \<subseteq> {..<n}"
    by (auto simp: list_all_iff)
  moreover have "card (set start) = card {..<n}"
    using True by (simp add: distinct_card)
  ultimately have "set start = {..<n}"
    by (simp add: card_subset_eq)
  then show ?thesis
    using True by (simp add: arrangement_def)
next
  case False
  then show ?thesis
    by (auto simp: arrangement_def)
qed

lemma set_unstable_argsort: "set (unstable_argsort start keys) = {..<length keys}"
  by (simp add: unstable_argsort_def set_arrangement)

lemma distinct_unstable_argsort: "distinct (unstable_argsort start keys)"
  by (simp add: unstable_argsort_def distinct_arrangement)

lemma length_unstable_argsort: "length (unstable_argsort start keys) = length keys"
  by (simp add: unstable_argsort_def length_arrangement)

lemma sorted_unstable_argsort: "sorted (map (\<lambda>i. keys ! i) (unstable_argsort start keys))"
  by (simp add: unstable_argsort_def)

text \<open>
  Every ascending order of the positions is a result of the model: an unstable sort that
  returns \<open>p\<close> is the model with \<open>start = p\<close>.
\<close>

lemma unstable_argsort_complete:
  "length p = length keys \<Longrightarrow> distinct p \<Longrightarrow> set p = {..<length keys} \<Longrightarrow>
   sorted (map (\<lambda>i. keys ! i) p) \<Longrightarrow> unstable_argsort p keys = p"
proof -
  assume l: "length p = length keys" and d: "distinct p" and s: "set p = {..<length keys}"
    and o: "sorted (map (\<lambda>i. keys ! i) p)"
  have "list_all (\<lambda>i. i < length keys) p"
    using s by (simp add: list_all_iff)
  then have "arrangement p (length keys) = p"
    using l d by (simp add: arrangement_def)
  then show ?thesis
    using o by (simp add: unstable_argsort_def sort_key_id_if_sorted)
qed


section \<open>Lengths of the score vectors and the combiner on them\<close>

lemma length_zeros: "length (zeros n) = n"
  by (simp add: zeros_def)

lemma length_detect_statistical: "length (detect_statistical_anomalies m df) = length df"
  by (simp add: detect_statistical_anomalies_def length_zeros)

lemma length_detect_text: "length (detect_text_anomalies m df) = length df"
  by (simp add: detect_text_anomalies_def length_zeros)

lemma length_fold_update:
  "length (fold (\<lambda>(idx, a) acc. acc[idx := g a]) ps xs) = length xs"
  by (induction ps arbitrary: xs) (auto split: prod.splits)

lemma length_detect_temporal: "length (detect_temporal_anomalies m df) = length df"
  by (simp add: detect_temporal_anomalies_def Let_def length_zeros length_fold_update)

lemma length_set_mask: "length scores = length df \<Longrightarrow> length (set_mask df sev v scores) = length df"
  by (simp add: set_mask_def)

lemma length_fold_bands:
  "length acc = length df \<Longrightarrow>
   length (fold (\<lambda>(sev, min_freq, max_freq) acc.
                      case map_of fr sev of
                        None \<Rightarrow> acc
                      | Some freq \<Rightarrow> if freq < min_freq \<or> max_freq < freq
                                     then set_mask df sev v acc else acc) rs acc) = length df"
  by (induction rs arbitrary: acc) (auto simp: length_set_mask split: option.splits)

lemma length_fold_rare:
  "length acc = length df \<Longrightarrow> length (fold (\<lambda>sev acc. set_mask df sev v acc) ss acc) = length df"
  by (induction ss arbitrary: acc) (auto simp: length_set_mask)

lemma length_detect_severity: "length (detect_severity_anomalies df) = length df"
  by (simp add: detect_severity_anomalies_def Let_def length_fold_rare length_fold_bands length_zeros)

lemma length_detect_pattern: "length (detect_pattern_anomalies u df) = length df"
  by (simp add: detect_pattern_anomalies_def)

lemma length_final_scores: "length (final_scores a n) = n"
  by (simp add: final_scores_def Let_def)

lemma set_argsort: "set (argsort m xs) = {..<length xs}"
  by (simp add: argsort_def set_unstable_argsort)

lemma distinct_argsort: "distinct (argsort m xs)"
  by (simp add: argsort_def distinct_unstable_argsort)

lemma length_argsort: "length (argsort m xs) = length xs"
  by (simp add: argsort_def length_unstable_argsort)

lemma sorted_argsort: "sorted (map (\<lambda>i. xs ! i) (argsort m xs))"
  by (simp only: argsort_def sorted_unstable_argsort)

lemma set_last_k: "set (last_k k xs) \<subseteq> set xs"
  by (auto simp: last_k_def dest: in_set_dropD)

lemma distinct_last_k: "distinct xs \<Longrightarrow> distinct (last_k k xs)"
  by (simp add: last_k_def)

lemma anomaly_scores_columns:
  "c \<in> set (anomaly_scores u m df) \<Longrightarrow> length c = length df"
  by (auto simp: anomaly_scores_def length_detect_statistical length_detect_text
        length_detect_temporal length_detect_severity length_detect_pattern split: if_splits)

lemma length_anomaly_scores: "length (anomaly_scores u m df) \<le> 5"
  by (simp add: anomaly_scores_def)

lemma anomaly_scores_Cons:
  "\<exists>cols. anomaly_scores u m df = detect_statistical_anomalies m df # cols"
  by (simp add: anomaly_scores_def)

text \<open>What the combiner computes on the vectors of \<open>detect_anomalies\<close>.\<close>

lemma combine_on_anomaly_scores:
  "combine_anomaly_scores m (anomaly_scores u m df) df =
     (let scores = final_scores (anomaly_scores u m df) (length df);
          anomaly_indices = filter (\<lambda>i. 0.3 < scores ! i) [0..<length df]
      in if length df < 5 * length anomaly_indices
         then last_k (length df div 5) (argsort m scores)
         else anomaly_indices)"
proof -
  obtain cols where c: "anomaly_scores u m df = detect_statistical_anomalies m df # cols"
    using anomaly_scores_Cons by blast
  have l: "\<forall>c \<in> set cols. length c = length df"
    using anomaly_scores_columns [of _ u m df] c by simp
  have w: "\<not> length weights < length (anomaly_scores u m df)"
    using length_anomaly_scores [of u m df] by (simp add: weights_def)
  show ?thesis
    using l w unfolding combine_anomaly_scores_def c
    by (simp add: Let_def length_detect_statistical length_final_scores)
qed

lemma method_weights_4: "method_weights (length [a, b, c, d]) = [0.25, 0.3125, 0.25, 0.1875]"
  by (simp add: method_weights_def weights_def)

lemma final_scores_4:
  "i < n \<Longrightarrow> final_scores [a, b, c, d] n ! i =
     0.25 * a ! i + 0.3125 * b ! i + 0.25 * c ! i + 0.1875 * d ! i"
  by (simp add: final_scores_def method_weights_def weights_def Let_def)

lemma final_scores_5:
  "i < n \<Longrightarrow> final_scores [a, b, c, d, e] n ! i =
     0.2 * a ! i + 0.25 * b ! i + 0.2 * c ! i + 0.15 * d ! i + 0.2 * e ! i"
  by (simp add: final_scores_def method_weights_def weights_def Let_def)

text \<open>The weighted score of every row, with and without the temporal method.\<close>

lemma final_scores_anomaly_scores:
  "i < length df \<Longrightarrow>
   final_scores (anomaly_scores u m df) (length df) ! i =
     (if 10 < notna_count df
      then 0.2 * detect_statistical_anomalies m df ! i + 0.25 * detect_text_anomalies m df ! i
           + 0.2 * detect_temporal_anomalies m df ! i + 0.15 * detect_severity_anomalies df ! i
           + 0.2 * detect_pattern_anomalies u df ! i
      else 0.25 * detect_statistical_anomalies m df ! i + 0.3125 * detect_text_anomalies m df ! i
           + 0.25 * detect_severity_anomalies df ! i + 0.1875 * detect_pattern_anomalies u df ! i)"
  by (simp add: anomaly_scores_def final_scores_4 final_scores_5)

lemma sorted_take_drop:
  "sorted (map f ys) \<Longrightarrow> x \<in> set (take k ys) \<Longrightarrow> y \<in> set (drop k ys) \<Longrightarrow> f x \<le> f y"
proof -
  assume s: "sorted (map f ys)" and x: "x \<in> set (take k ys)" and y: "y \<in> set (drop k ys)"
  have "sorted (map f (take k ys) @ map f (drop k ys))"
    using s by (simp add: map_append [symmetric] del: map_append)
  then show ?thesis
    using x y by (auto simp: sorted_append)
qed

lemma sorted_map_drop: "sorted (map f ys) \<Longrightarrow> sorted (map f (drop k ys))"
  by (simp add: drop_map [symmetric] sorted_wrt_drop)


section \<open>The detector on the table of ten records\<close>

lemma notna_ten: "notna_count ten_stamped = 10"
  by code_simp

lemma length_ten: "length ten_stamped = 10"
  by (simp add: ten_stamped_def)

lemma statistical_ten:
  "detect_statistical_anomalies busy ten_stamped = [0, 0, 0, 1, 0, 0, 1, 0, 0, 0]"
  by code_simp

lemma text_ten: "detect_text_anomalies busy ten_stamped = replicate 10 1"
  by code_simp

lemma severity_ten: "detect_severity_anomalies ten_stamped = replicate 10 (1/2)"
  by code_simp

lemma pattern_score_example: "pattern_score plain (cps ''unauthorized access'') = 7/10"
  by code_simp

lemma pattern_ten: "detect_pattern_anomalies plain ten_stamped = replicate 10 (7/10)"
  by (simp add: detect_pattern_anomalies_def ten_stamped_def example_row_def pattern_score_example
        o_def map_replicate_const del: replicate.simps)

lemma anomaly_scores_ten:
  "anomaly_scores plain busy ten_stamped =
     [[0, 0, 0, 1, 0, 0, 1, 0, 0, 0], replicate 10 1, replicate 10 (1/2), replicate 10 (7/10)]"
  by (simp add: anomaly_scores_def notna_ten statistical_ten text_ten severity_ten pattern_ten
        del: replicate.simps)

lemma final_scores_ten:
  "final_scores [[0, 0, 0, 1, 0, 0, 1, 0, 0, 0], replicate 10 1, replicate 10 (1/2), replicate 10 (7/10)] 10 =
     [91/160, 91/160, 91/160, 131/160, 91/160, 91/160, 131/160, 91/160, 91/160, 91/160]"
  by code_simp

lemma argsort_ten:
  "last_k 2 (argsort busy
      [91/160, 91/160, 91/160, 131/160, 91/160, 91/160, 131/160, 91/160, 91/160, 91/160]) = [6, 3]"
  by code_simp

lemma flagged_ten:
  "filter (\<lambda>i. 0.3 <
      [91/160, 91/160, 91/160, 131/160, 91/160, 91/160, 131/160, 91/160, 91/160, 91/160 :: rat] ! i)
     [0..<10] = [0, 1, 2, 3, 4, 5, 6, 7, 8, 9]"
  by code_simp

lemma ten_flagged: "detect_anomalies plain busy ten_stamped = [6, 3]"
proof -
  have "detect_anomalies plain busy ten_stamped =
          combine_anomaly_scores busy (anomaly_scores plain busy ten_stamped) ten_stamped"
    by (simp add: detect_anomalies_def length_ten)
  also have "\<dots> = [6, 3]"
    by (subst combine_on_anomaly_scores)
       (simp only: length_ten anomaly_scores_ten final_scores_ten flagged_ten Let_def,
        simp add: argsort_ten)
  finally show ?thesis .
qed


section \<open>Validity of the returned indices\<close>

text \<open>
  C9. For every input table, every index in the list returned by anomaly detection is a
  valid 0-based offset into the table (below the row count), and no index occurs twice.
  This holds whatever the libraries do: whatever rows the two models flag, whether or not
  pandas raises in the temporal method, and whatever order the sorts give to equal keys.
\<close>

theorem detect_anomalies_indices_valid:
  "(\<forall>i \<in> set (detect_anomalies u m df). i < length df)
   \<and> distinct (detect_anomalies u m df)"
proof (cases "length df < 10")
  case True
  then show ?thesis by (simp add: detect_anomalies_def)
next
  case False
  let ?fs = "final_scores (anomaly_scores u m df) (length df)"
  have s: "set (last_k (length df div 5) (argsort m ?fs)) \<subseteq> {..<length df}"
    using set_last_k [of "length df div 5" "argsort m ?fs"]
    by (simp add: set_argsort length_final_scores)
  have d: "distinct (last_k (length df div 5) (argsort m ?fs))"
    by (simp add: distinct_last_k distinct_argsort)
  show ?thesis
    using False s d
    by (auto simp: detect_anomalies_def combine_on_anomaly_scores Let_def)
qed

theorem detect_anomalies_indices_valid_witness:
  "list_all (\<lambda>i. i < length ten_stamped) (detect_anomalies plain busy ten_stamped)
   \<and> distinct (detect_anomalies plain busy ten_stamped)
   \<and> detect_anomalies plain busy ten_stamped = [6, 3]"
proof -
  have "(\<forall>i \<in> set (detect_anomalies plain busy ten_stamped). i < length ten_stamped)
        \<and> distinct (detect_anomalies plain busy ten_stamped)"
    by (rule detect_anomalies_indices_valid)
  then have "list_all (\<lambda>i. i < length ten_stamped) (detect_anomalies plain busy ten_stamped)
        \<and> distinct (detect_anomalies plain busy ten_stamped)"
    by (auto simp only: list_all_iff)
  then show ?thesis
    using ten_flagged by blast
qed


section \<open>The severity method, row by row\<close>

lemma set_map_filter_severity:
  "set (List.map_filter severity df) = {s. Some s \<in> severity ` set df}"
  by (induction df) (auto simp: map_filter_simps split: option.splits)

lemma map_of_severity_frequencies:
  "map_of (severity_frequencies df) s =
     (if Some s \<in> severity ` set df then Some (frequency df s) else None)"
proof -
  have f: "severity_frequencies df =
             map (\<lambda>s. (s, frequency df s)) (remdups (List.map_filter severity df))"
    by (simp add: severity_frequencies_def value_counts_def frequency_def)
  have s: "set (List.map_filter severity df) = {s. Some s \<in> severity ` set df}"
    by (rule set_map_filter_severity)
  show ?thesis
    unfolding f using s by (simp add: map_of_map_restrict restrict_map_def)
qed

lemma nth_set_mask:
  "i < length df \<Longrightarrow> length scores = length df \<Longrightarrow>
   set_mask df sev v scores ! i = (if severity (df ! i) = Some sev then v else scores ! i)"
  by (simp add: set_mask_def)

lemma nth_fold_bands:
  "i < length df \<Longrightarrow> length acc = length df \<Longrightarrow> distinct (map fst rs) \<Longrightarrow>
   fold (\<lambda>(sev, min_freq, max_freq) acc.
           case map_of (severity_frequencies df) sev of
             None \<Rightarrow> acc
           | Some freq \<Rightarrow> if freq < min_freq \<or> max_freq < freq
                          then set_mask df sev v acc else acc) rs acc ! i =
     (case severity (df ! i) of
        None \<Rightarrow> acc ! i
      | Some s \<Rightarrow> (case map_of rs s of
                     None \<Rightarrow> acc ! i
                   | Some (lo, hi) \<Rightarrow> if frequency df s < lo \<or> hi < frequency df s then v else acc ! i))"
proof (induction rs arbitrary: acc)
  case Nil
  then show ?case by (simp split: option.splits)
next
  case (Cons x rs)
  obtain sev lo hi where x: "x = (sev, lo, hi)" by (cases x) auto
  let ?acc' = "(case map_of (severity_frequencies df) sev of
             None \<Rightarrow> acc
           | Some freq \<Rightarrow> if freq < lo \<or> hi < freq then set_mask df sev v acc else acc)"
  have l: "length ?acc' = length df"
    using Cons.prems(2) by (simp add: length_set_mask split: option.splits)
  have d: "distinct (map fst rs)" and n: "map_of rs sev = None"
    using Cons.prems(3) x by (auto simp: map_of_eq_None_iff)
  have p: "Some sev \<in> severity ` set df" if "severity (df ! i) = Some sev"
    using Cons.prems(1) that by (metis image_eqI nth_mem)
  have a: "?acc' ! i =
     (if severity (df ! i) = Some sev \<and> (frequency df sev < lo \<or> hi < frequency df sev) then v else acc ! i)"
    using Cons.prems(1,2) p by (auto simp: map_of_severity_frequencies nth_set_mask)
  show ?case
    using Cons.IH [OF Cons.prems(1) l d] a n x
    by (auto split: option.splits)
qed

lemma nth_fold_rare:
  "i < length df \<Longrightarrow> length acc = length df \<Longrightarrow>
   fold (\<lambda>sev acc. set_mask df sev v acc) ss acc ! i =
     (case severity (df ! i) of
        None \<Rightarrow> acc ! i
      | Some s \<Rightarrow> if s \<in> set ss then v else acc ! i)"
proof (induction ss arbitrary: acc)
  case Nil
  then show ?case by (simp split: option.splits)
next
  case (Cons x ss)
  have l: "length (set_mask df x v acc) = length df"
    using Cons.prems(2) by (simp add: length_set_mask)
  show ?case
    using Cons.IH [OF Cons.prems(1) l] Cons.prems
    by (auto simp: nth_set_mask split: option.splits)
qed

lemma set_rare_severities:
  "set (map fst (filter (\<lambda>(s, f). f < c) (severity_frequencies df))) =
     {s. Some s \<in> severity ` set df \<and> frequency df s < c}"
proof -
  have f: "severity_frequencies df =
             map (\<lambda>s. (s, frequency df s)) (remdups (List.map_filter severity df))"
    by (simp add: severity_frequencies_def value_counts_def frequency_def)
  have s: "set (List.map_filter severity df) = {s. Some s \<in> severity ` set df}"
    by (rule set_map_filter_severity)
  show ?thesis
    unfolding f using s by (auto simp: image_iff)
qed

text \<open>The score of a row, by its severity, the frequency of the severity and the table of bands.\<close>

lemma nth_detect_severity:
  "i < length df \<Longrightarrow>
   detect_severity_anomalies df ! i =
     (case severity (df ! i) of
        None \<Rightarrow> 0
      | Some s \<Rightarrow>
          if frequency df s < 0.01 then 1.0
          else (case map_of expected_ranges s of
                  None \<Rightarrow> 0
                | Some (min_freq, max_freq) \<Rightarrow>
                    if frequency df s < min_freq \<or> max_freq < frequency df s then 0.5 else 0))"
proof -
  assume i: "i < length df"
  define banded where "banded = fold (\<lambda>(sev, min_freq, max_freq) acc.
                      case map_of (severity_frequencies df) sev of
                        None \<Rightarrow> acc
                      | Some freq \<Rightarrow> if freq < min_freq \<or> max_freq < freq
                                     then set_mask df sev 0.5 acc else acc)
                    expected_ranges (zeros (length df))"
  define rare where "rare = map fst (filter (\<lambda>(s, f). f < 0.01) (severity_frequencies df))"
  have d: "distinct (map fst expected_ranges)"
    by (simp add: expected_ranges_def cps_def)
  have lb: "length banded = length df"
    unfolding banded_def by (simp add: length_fold_bands length_zeros)
  have z: "zeros (length df) ! i = 0"
    using i by (simp add: zeros_def)
  have b: "banded ! i =
     (case severity (df ! i) of
        None \<Rightarrow> 0
      | Some s \<Rightarrow> (case map_of expected_ranges s of
                     None \<Rightarrow> 0
                   | Some (lo, hi) \<Rightarrow> if frequency df s < lo \<or> hi < frequency df s then 0.5 else 0))"
    unfolding banded_def nth_fold_bands [OF i length_zeros d] z by (rule refl)
  have r: "s \<in> set rare \<longleftrightarrow> frequency df s < 0.01" if "severity (df ! i) = Some s" for s
  proof -
    have "Some s \<in> severity ` set df"
      using i that by (metis image_eqI nth_mem)
    then show ?thesis
      unfolding rare_def set_rare_severities by simp
  qed
  have "detect_severity_anomalies df = fold (\<lambda>sev acc. set_mask df sev 1.0 acc) rare banded"
    by (simp add: detect_severity_anomalies_def Let_def rare_def banded_def)
  then have "detect_severity_anomalies df ! i =
     (case severity (df ! i) of
        None \<Rightarrow> banded ! i
      | Some s \<Rightarrow> if s \<in> set rare then 1.0 else banded ! i)"
    by (simp only: nth_fold_rare [OF i lb])
  then show ?thesis
    using r b by (simp split: option.splits)
qed

text \<open>The bands, severity by severity.\<close>

lemma map_of_expected_ranges:
  "map_of expected_ranges s =
     (if s = cps ''ERROR'' then Some (0.001, 0.1)
      else if s = cps ''FATAL'' then Some (0.0001, 0.05)
      else if s = cps ''WARNING'' then Some (0.01, 0.3)
      else if s = cps ''INFO'' then Some (0.3, 0.95)
      else if s = cps ''DEBUG'' then Some (0.0, 0.5)
      else None)"
  by (simp add: expected_ranges_def)


section \<open>The severity method on the table of 200 records\<close>

lemma severity_plain_row: "severity (plain_row sev msg) = Some (cps sev)"
  by (simp add: plain_row_def)

lemma message_plain_row: "message (plain_row sev msg) = Some (cps msg)"
  by (simp add: plain_row_def)

lemma timestamp_plain_row: "timestamp (plain_row sev msg) = None"
  by (simp add: plain_row_def)

lemma length_two_hundred: "length two_hundred = 200"
  by (simp add: two_hundred_def)

lemma rows_two_hundred:
  "severity (two_hundred ! 0) = Some (cps ''DEBUG'')"
  "severity (two_hundred ! 120) = Some (cps ''INFO'')"
  "severity (two_hundred ! 187) = Some (cps ''NOTE'')"
  "severity (two_hundred ! 197) = Some (cps ''FATAL'')"
  "severity (two_hundred ! 198) = Some (cps ''WARNING'')"
  "severity (two_hundred ! 199) = Some (cps ''AUDIT'')"
  by (simp_all add: two_hundred_def nth_append severity_plain_row)

lemma frequency_two_hundred:
  "frequency two_hundred (cps ''DEBUG'') = 3 / 5"
  "frequency two_hundred (cps ''INFO'') = 67 / 200"
  "frequency two_hundred (cps ''NOTE'') = 1 / 20"
  "frequency two_hundred (cps ''FATAL'') = 1 / 200"
  "frequency two_hundred (cps ''WARNING'') = 1 / 200"
  "frequency two_hundred (cps ''AUDIT'') = 1 / 200"
  by (simp_all add: frequency_def two_hundred_def severity_plain_row cps_def)

lemma names_differ:
  "cps ''DEBUG'' \<noteq> cps ''ERROR''" "cps ''DEBUG'' \<noteq> cps ''FATAL''" "cps ''DEBUG'' \<noteq> cps ''WARNING''"
  "cps ''DEBUG'' \<noteq> cps ''INFO''" "cps ''INFO'' \<noteq> cps ''ERROR''" "cps ''INFO'' \<noteq> cps ''FATAL''"
  "cps ''INFO'' \<noteq> cps ''WARNING''" "cps ''NOTE'' \<noteq> cps ''ERROR''" "cps ''NOTE'' \<noteq> cps ''FATAL''"
  "cps ''NOTE'' \<noteq> cps ''WARNING''" "cps ''NOTE'' \<noteq> cps ''INFO''" "cps ''NOTE'' \<noteq> cps ''DEBUG''"
  "cps ''FATAL'' \<noteq> cps ''ERROR''" "cps ''WARNING'' \<noteq> cps ''ERROR''" "cps ''WARNING'' \<noteq> cps ''FATAL''"
  "cps ''AUDIT'' \<noteq> cps ''ERROR''" "cps ''AUDIT'' \<noteq> cps ''FATAL''" "cps ''AUDIT'' \<noteq> cps ''WARNING''"
  "cps ''AUDIT'' \<noteq> cps ''INFO''" "cps ''AUDIT'' \<noteq> cps ''DEBUG''"
  by (simp_all add: cps_def)


section \<open>Scores of the severity method\<close>

text \<open>
  C4. The severity method gives every row a score that depends only on the row's severity
  and on the observed frequency of that severity (its number of rows over the number of
  rows of the table). The score is 1.0 when the frequency is below 0.01, whatever the
  severity. Otherwise it is 0.5 when the severity is \<open>ERROR\<close> and the frequency is outside
  0.001 to 0.1, \<open>FATAL\<close> and outside 0.0001 to 0.05, \<open>WARNING\<close> and outside 0.01 to 0.3,
  \<open>INFO\<close> and outside 0.3 to 0.95, or \<open>DEBUG\<close> and outside 0 to 0.5. Otherwise it is 0:
  for a named severity inside its band, for any other severity, and for a null severity.
  So the 1.0 of the rarity rule overrides the 0.5 of the band rule, and a severity outside
  the five named ones is subject to the rarity rule only.
\<close>

theorem severity_scores:
  "i < length df \<Longrightarrow>
   detect_severity_anomalies df ! i =
     (case severity (df ! i) of
        None \<Rightarrow> 0
      | Some s \<Rightarrow>
          if frequency df s < 0.01 then 1.0
          else if s = cps ''ERROR'' then (if frequency df s < 0.001 \<or> 0.1 < frequency df s then 0.5 else 0)
          else if s = cps ''FATAL'' then (if frequency df s < 0.0001 \<or> 0.05 < frequency df s then 0.5 else 0)
          else if s = cps ''WARNING'' then (if frequency df s < 0.01 \<or> 0.3 < frequency df s then 0.5 else 0)
          else if s = cps ''INFO'' then (if frequency df s < 0.3 \<or> 0.95 < frequency df s then 0.5 else 0)
          else if s = cps ''DEBUG'' then (if frequency df s < 0 \<or> 0.5 < frequency df s then 0.5 else 0)
          else 0)"
  by (simp only: nth_detect_severity map_of_expected_ranges) (simp split: option.splits)

theorem severity_scores_witness:
  "length two_hundred = 200
   \<and> severity (two_hundred ! 0) = Some (cps ''DEBUG'') \<and> frequency two_hundred (cps ''DEBUG'') = 3 / 5
   \<and> detect_severity_anomalies two_hundred ! 0 = 1 / 2
   \<and> severity (two_hundred ! 120) = Some (cps ''INFO'') \<and> frequency two_hundred (cps ''INFO'') = 67 / 200
   \<and> detect_severity_anomalies two_hundred ! 120 = 0
   \<and> severity (two_hundred ! 187) = Some (cps ''NOTE'') \<and> frequency two_hundred (cps ''NOTE'') = 1 / 20
   \<and> detect_severity_anomalies two_hundred ! 187 = 0
   \<and> severity (two_hundred ! 197) = Some (cps ''FATAL'') \<and> frequency two_hundred (cps ''FATAL'') = 1 / 200
   \<and> detect_severity_anomalies two_hundred ! 197 = 1
   \<and> severity (two_hundred ! 198) = Some (cps ''WARNING'') \<and> frequency two_hundred (cps ''WARNING'') = 1 / 200
   \<and> detect_severity_anomalies two_hundred ! 198 = 1
   \<and> severity (two_hundred ! 199) = Some (cps ''AUDIT'') \<and> frequency two_hundred (cps ''AUDIT'') = 1 / 200
   \<and> detect_severity_anomalies two_hundred ! 199 = 1"
proof -
  have a: "detect_severity_anomalies two_hundred ! 0 = 1 / 2"
    using severity_scores [of 0 two_hundred]
    by (simp add: length_two_hundred rows_two_hundred frequency_two_hundred names_differ)
  have b: "detect_severity_anomalies two_hundred ! 120 = 0"
    using severity_scores [of 120 two_hundred]
    by (simp add: length_two_hundred rows_two_hundred frequency_two_hundred names_differ)
  have c: "detect_severity_anomalies two_hundred ! 187 = 0"
    using severity_scores [of 187 two_hundred]
    by (simp add: length_two_hundred rows_two_hundred frequency_two_hundred names_differ)
  have d: "detect_severity_anomalies two_hundred ! 197 = 1"
    using severity_scores [of 197 two_hundred]
    by (simp add: length_two_hundred rows_two_hundred frequency_two_hundred names_differ)
  have e: "detect_severity_anomalies two_hundred ! 198 = 1"
    using severity_scores [of 198 two_hundred]
    by (simp add: length_two_hundred rows_two_hundred frequency_two_hundred names_differ)
  have f: "detect_severity_anomalies two_hundred ! 199 = 1"
    using severity_scores [of 199 two_hundred]
    by (simp add: length_two_hundred rows_two_hundred frequency_two_hundred names_differ)
  show ?thesis
    using a b c d e f by (simp only: length_two_hundred rows_two_hundred frequency_two_hundred)
qed


section \<open>The detector on the table of 101 records\<close>

lemma nth_zeros: "i < n \<Longrightarrow> zeros n ! i = 0"
  by (simp add: zeros_def)

lemma statistical_quiet: "detect_statistical_anomalies quiet df = zeros (length df)"
  by (simp add: detect_statistical_anomalies_def quiet_def zeros_def map_replicate_const)

lemma text_quiet: "detect_text_anomalies quiet df = zeros (length df)"
  by (simp add: detect_text_anomalies_def quiet_def zeros_def map_replicate_const)

lemma length_hundred_and_one: "length hundred_and_one = Suc 100"
  by (simp add: hundred_and_one_def)

lemma notna_hundred_and_one: "notna_count hundred_and_one = 0"
  by (simp add: notna_count_def hundred_and_one_def timestamp_plain_row)

lemma rows_hundred_and_one:
  "i < 100 \<Longrightarrow> hundred_and_one ! i = plain_row ''INFO'' ''ok''"
  "hundred_and_one ! 100 = plain_row ''AUDIT'' ''aaaaaaaaaaa''"
  by (simp_all add: hundred_and_one_def nth_append)

lemma frequency_hundred_and_one:
  "frequency hundred_and_one (cps ''INFO'') = 100 / 101"
  "frequency hundred_and_one (cps ''AUDIT'') = 1 / 101"
  by (simp_all add: frequency_def hundred_and_one_def severity_plain_row cps_def)

lemma severity_hundred_and_one:
  "i < 100 \<Longrightarrow> detect_severity_anomalies hundred_and_one ! i = 1 / 2"
  "detect_severity_anomalies hundred_and_one ! 100 = 1"
  by (simp_all add: nth_detect_severity map_of_expected_ranges length_hundred_and_one
        rows_hundred_and_one severity_plain_row frequency_hundred_and_one names_differ)

lemma pattern_score_ok: "pattern_score plain (cps ''ok'') = 0"
  by code_simp

lemma pattern_score_repeated: "pattern_score plain (cps ''aaaaaaaaaaa'') = 2 / 5"
  by code_simp

lemma pattern_hundred_and_one:
  "i < 100 \<Longrightarrow> detect_pattern_anomalies plain hundred_and_one ! i = 0"
  "detect_pattern_anomalies plain hundred_and_one ! 100 = 2 / 5"
  by (simp_all add: detect_pattern_anomalies_def length_hundred_and_one rows_hundred_and_one
        message_plain_row pattern_score_ok pattern_score_repeated)

lemma filter_upt_last: "(\<And>i. i < n \<Longrightarrow> \<not> P i) \<Longrightarrow> P n \<Longrightarrow> filter P [0..<Suc n] = [n]"
  by (simp add: filter_empty_conv)

lemma flagged_hundred_and_one:
  "filter (\<lambda>i. 0.3 <
       0.25 * detect_statistical_anomalies quiet hundred_and_one ! i
       + 0.3125 * detect_text_anomalies quiet hundred_and_one ! i
       + 0.25 * detect_severity_anomalies hundred_and_one ! i
       + 0.1875 * detect_pattern_anomalies plain hundred_and_one ! i)
     [0..<Suc 100] = [100]"
  by (rule filter_upt_last)
     (simp_all add: statistical_quiet text_quiet length_hundred_and_one nth_zeros
        severity_hundred_and_one pattern_hundred_and_one)

lemma filter_scores_upt:
  "filter (\<lambda>i. c < map f [0..<n] ! i) [0..<n] = filter (\<lambda>i. c < f i) [0..<n]"
  by (rule filter_cong) auto


section \<open>Weights when the temporal method is left out\<close>

text \<open>
  C10. When at most 10 records have a timestamp, \<open>detect_anomalies\<close> stacks four
  vectors, in the order statistical, text, severity, pattern. The combiner cuts the weights
  \<open>[0.2, 0.25, 0.2, 0.15, 0.2]\<close> to the first four and applies them by position, so after
  normalisation the statistical method weighs 0.25, the text method 0.3125, the severity
  method 0.25 (the entry written for the temporal method) and the pattern method 0.1875
  (the entry written for the severity method). These are the weights of the result: on a
  table of 10 rows or more, \<open>detect_anomalies\<close> is the combiner on the four vectors, and
  it returns the rows whose score with these weights is above 0.3, or the last fifth of
  \<open>np.argsort\<close> of these scores when more than a fifth of the rows are above.
\<close>

theorem weights_without_temporal:
  "notna_count df \<le> 10 \<Longrightarrow>
     anomaly_scores u m df =
       [detect_statistical_anomalies m df, detect_text_anomalies m df,
        detect_severity_anomalies df, detect_pattern_anomalies u df]
   \<and> take (length (anomaly_scores u m df)) weights = [0.2, 0.25, 0.2, 0.15]
   \<and> method_weights (length (anomaly_scores u m df)) = [0.25, 0.3125, 0.25, 0.1875]
   \<and> (\<forall>i < length df.
         final_scores (anomaly_scores u m df) (length df) ! i =
           0.25 * detect_statistical_anomalies m df ! i
         + 0.3125 * detect_text_anomalies m df ! i
         + 0.25 * detect_severity_anomalies df ! i
         + 0.1875 * detect_pattern_anomalies u df ! i)
   \<and> (10 \<le> length df \<longrightarrow>
        detect_anomalies u m df =
          combine_anomaly_scores m
            [detect_statistical_anomalies m df, detect_text_anomalies m df,
             detect_severity_anomalies df, detect_pattern_anomalies u df] df
        \<and> detect_anomalies u m df =
            (let score = (\<lambda>i. 0.25 * detect_statistical_anomalies m df ! i
                             + 0.3125 * detect_text_anomalies m df ! i
                             + 0.25 * detect_severity_anomalies df ! i
                             + 0.1875 * detect_pattern_anomalies u df ! i);
                 flagged = filter (\<lambda>i. 0.3 < score i) [0..<length df]
             in if length df < 5 * length flagged
                then last_k (length df div 5) (argsort m (map score [0..<length df]))
                else flagged))"
proof -
  assume n: "notna_count df \<le> 10"
  let ?score = "\<lambda>i. 0.25 * detect_statistical_anomalies m df ! i
                   + 0.3125 * detect_text_anomalies m df ! i
                   + 0.25 * detect_severity_anomalies df ! i
                   + 0.1875 * detect_pattern_anomalies u df ! i"
  have a: "anomaly_scores u m df =
       [detect_statistical_anomalies m df, detect_text_anomalies m df,
        detect_severity_anomalies df, detect_pattern_anomalies u df]"
    using n by (simp add: anomaly_scores_def)
  have t: "take (length [a, b, c, d]) weights = [0.2, 0.25, 0.2, 0.15]" for a b c d :: "rat list"
    by (simp add: weights_def)
  have w: "take (length (anomaly_scores u m df)) weights = [0.2, 0.25, 0.2, 0.15]
         \<and> method_weights (length (anomaly_scores u m df)) = [0.25, 0.3125, 0.25, 0.1875]"
    unfolding a by (simp only: t method_weights_4)
  have s: "\<forall>i < length df. final_scores (anomaly_scores u m df) (length df) ! i = ?score i"
    unfolding a by (simp add: final_scores_4)
  have f: "final_scores (anomaly_scores u m df) (length df) = map ?score [0..<length df]"
  proof (rule nth_equalityI)
    show "length (final_scores (anomaly_scores u m df) (length df)) = length (map ?score [0..<length df])"
      by (simp add: length_final_scores)
  next
    fix i
    assume "i < length (final_scores (anomaly_scores u m df) (length df))"
    then have "i < length df"
      by (simp add: length_final_scores)
    then show "final_scores (anomaly_scores u m df) (length df) ! i = map ?score [0..<length df] ! i"
      using s by simp
  qed
  have c: "detect_anomalies u m df = combine_anomaly_scores m (anomaly_scores u m df) df"
    if "10 \<le> length df"
    using that by (simp add: detect_anomalies_def)
  have d: "combine_anomaly_scores m (anomaly_scores u m df) df =
            (let score = ?score;
                 flagged = filter (\<lambda>i. 0.3 < score i) [0..<length df]
             in if length df < 5 * length flagged
                then last_k (length df div 5) (argsort m (map score [0..<length df]))
                else flagged)"
    by (simp only: combine_on_anomaly_scores f Let_def filter_scores_upt)
  have e: "detect_anomalies u m df =
          combine_anomaly_scores m
            [detect_statistical_anomalies m df, detect_text_anomalies m df,
             detect_severity_anomalies df, detect_pattern_anomalies u df] df
        \<and> detect_anomalies u m df =
            (let score = ?score;
                 flagged = filter (\<lambda>i. 0.3 < score i) [0..<length df]
             in if length df < 5 * length flagged
                then last_k (length df div 5) (argsort m (map score [0..<length df]))
                else flagged)"
    if "10 \<le> length df"
    using c [OF that] d a by (simp only:)
  have s': "\<forall>i < length df.
         final_scores [detect_statistical_anomalies m df, detect_text_anomalies m df,
        detect_severity_anomalies df, detect_pattern_anomalies u df] (length df) ! i =
           ?score i"
    using s by (simp only: a)
  have w': "take (length [detect_statistical_anomalies m df, detect_text_anomalies m df,
        detect_severity_anomalies df, detect_pattern_anomalies u df]) weights = [0.2, 0.25, 0.2, 0.15]
         \<and> method_weights (length [detect_statistical_anomalies m df, detect_text_anomalies m df,
        detect_severity_anomalies df, detect_pattern_anomalies u df]) = [0.25, 0.3125, 0.25, 0.1875]"
    by (simp only: t method_weights_4)
  show ?thesis
    unfolding a using w' s' e by blast
qed

theorem weights_without_temporal_witness:
  "notna_count hundred_and_one \<le> 10 \<and> 10 \<le> length hundred_and_one
   \<and> method_weights (length (anomaly_scores plain quiet hundred_and_one)) = [0.25, 0.3125, 0.25, 0.1875]
   \<and> final_scores (anomaly_scores plain quiet hundred_and_one) (length hundred_and_one) ! 100 = 13 / 40
   \<and> detect_anomalies plain quiet hundred_and_one = [100]"
proof -
  have h: "notna_count hundred_and_one \<le> 10"
    by (simp add: notna_hundred_and_one)
  have l: "10 \<le> length hundred_and_one"
    by (simp add: length_hundred_and_one)
  note t = weights_without_temporal [OF h, of plain quiet]
  have w: "method_weights (length (anomaly_scores plain quiet hundred_and_one)) = [0.25, 0.3125, 0.25, 0.1875]"
    using t by blast
  have i: "100 < length hundred_and_one"
    by (simp add: length_hundred_and_one)
  have "\<forall>i < length hundred_and_one.
          final_scores (anomaly_scores plain quiet hundred_and_one) (length hundred_and_one) ! i =
          0.25 * detect_statistical_anomalies quiet hundred_and_one ! i
        + 0.3125 * detect_text_anomalies quiet hundred_and_one ! i
        + 0.25 * detect_severity_anomalies hundred_and_one ! i
        + 0.1875 * detect_pattern_anomalies plain hundred_and_one ! i"
    using t by blast
  then have "final_scores (anomaly_scores plain quiet hundred_and_one) (length hundred_and_one) ! 100 =
          0.25 * detect_statistical_anomalies quiet hundred_and_one ! 100
        + 0.3125 * detect_text_anomalies quiet hundred_and_one ! 100
        + 0.25 * detect_severity_anomalies hundred_and_one ! 100
        + 0.1875 * detect_pattern_anomalies plain hundred_and_one ! 100"
    using i by blast
  then have s: "final_scores (anomaly_scores plain quiet hundred_and_one) (length hundred_and_one) ! 100 = 13 / 40"
    by (simp add: statistical_quiet text_quiet length_hundred_and_one nth_zeros
          severity_hundred_and_one pattern_hundred_and_one)
  have "detect_anomalies plain quiet hundred_and_one =
            (let score = (\<lambda>i. 0.25 * detect_statistical_anomalies quiet hundred_and_one ! i
                             + 0.3125 * detect_text_anomalies quiet hundred_and_one ! i
                             + 0.25 * detect_severity_anomalies hundred_and_one ! i
                             + 0.1875 * detect_pattern_anomalies plain hundred_and_one ! i);
                 flagged = filter (\<lambda>i. 0.3 < score i) [0..<length hundred_and_one]
             in if length hundred_and_one < 5 * length flagged
                then last_k (length hundred_and_one div 5)
                       (argsort quiet (map score [0..<length hundred_and_one]))
                else flagged)"
    using t l by blast
  then have d: "detect_anomalies plain quiet hundred_and_one = [100]"
    by (simp only: Let_def length_hundred_and_one flagged_hundred_and_one) simp
  show ?thesis
    using h l w s d by blast
qed


section \<open>The threshold of the temporal method\<close>

text \<open>
  C2. The specification has the temporal method run, on a table of at least 10 records,
  whenever 10 or more records have a timestamp. The source leaves it out at exactly 10:
  the condition in \<open>detect_anomalies\<close> asks for more than 10, while
  the method's own guard returns zeros below 10: on the table of ten stamped records the
  method's guard would let it run, and the list of score vectors handed to the combiner
  has no temporal vector in it, whatever the libraries do.
\<close>

theorem ten_timestamps_skip_temporal:
  "length ten_stamped = 10 \<and> notna_count ten_stamped = 10
   \<and> length (with_time 0 ten_stamped) = 10
   \<and> anomaly_scores u m ten_stamped =
       [detect_statistical_anomalies m ten_stamped,
        detect_text_anomalies m ten_stamped,
        detect_severity_anomalies ten_stamped,
        detect_pattern_anomalies u ten_stamped]"
proof -
  have w: "length (with_time 0 ten_stamped) = 10" by code_simp
  show ?thesis using notna_ten length_ten w by (simp add: anomaly_scores_def)
qed


section \<open>The floor of ten records\<close>

text \<open>
  C7. For every table with fewer than 10 records, the empty table included, anomaly
  detection returns the empty list, whatever the records hold and whatever the libraries
  would do.
\<close>

theorem detect_anomalies_floor:
  "length df < 10 \<Longrightarrow> detect_anomalies u m df = []"
  by (simp add: detect_anomalies_def)

theorem detect_anomalies_floor_witness:
  "length (take 9 ten_stamped) < 10
   \<and> detect_anomalies plain busy (take 9 ten_stamped) = []"
  using detect_anomalies_floor [of "take 9 ten_stamped" plain busy] by simp



section \<open>The detector on the table of 100 records\<close>

lemma length_hundred_rows: "length hundred_rows = 100"
  by (simp add: hundred_rows_def)

lemma notna_hundred_rows: "notna_count hundred_rows = 0"
  by (simp add: notna_count_def hundred_rows_def timestamp_plain_row)

lemma statistical_nonneg: "i < length df \<Longrightarrow> 0 \<le> detect_statistical_anomalies m df ! i"
  by (simp add: detect_statistical_anomalies_def zeros_def)

lemma text_busy: "i < length df \<Longrightarrow> 5 \<le> length df \<Longrightarrow> detect_text_anomalies busy df ! i = 1"
  by (simp add: detect_text_anomalies_def busy_def quiet_def)

lemma frequency_hundred_rows: "frequency hundred_rows (cps ''INFO'') = 1"
  by (simp add: frequency_def hundred_rows_def severity_plain_row)

lemma severity_hundred_rows: "i < 100 \<Longrightarrow> detect_severity_anomalies hundred_rows ! i = 1 / 2"
  by (simp add: nth_detect_severity map_of_expected_ranges length_hundred_rows
        hundred_rows_def severity_plain_row frequency_hundred_rows [unfolded hundred_rows_def]
        names_differ)

lemma pattern_hundred_rows: "i < 100 \<Longrightarrow> detect_pattern_anomalies plain hundred_rows ! i = 7 / 10"
  by (simp add: detect_pattern_anomalies_def hundred_rows_def message_plain_row pattern_score_example)

lemma scores_hundred_rows:
  "i < length hundred_rows \<Longrightarrow>
   0.3 < final_scores (anomaly_scores plain busy hundred_rows) (length hundred_rows) ! i"
proof -
  assume l: "i < length hundred_rows"
  then have i: "i < 100"
    by (simp add: length_hundred_rows)
  have s: "0 \<le> detect_statistical_anomalies busy hundred_rows ! i"
    using l by (rule statistical_nonneg)
  have t: "detect_text_anomalies busy hundred_rows ! i = 1"
    using l by (simp add: text_busy length_hundred_rows)
  have "final_scores (anomaly_scores plain busy hundred_rows) (length hundred_rows) ! i =
          0.25 * detect_statistical_anomalies busy hundred_rows ! i
        + 0.3125 * detect_text_anomalies busy hundred_rows ! i
        + 0.25 * detect_severity_anomalies hundred_rows ! i
        + 0.1875 * detect_pattern_anomalies plain hundred_rows ! i"
    using final_scores_anomaly_scores [OF l, of plain busy] by (simp add: notna_hundred_rows)
  then show ?thesis
    using s t i by (simp add: severity_hundred_rows pattern_hundred_rows)
qed

lemma flagged_hundred_rows:
  "filter (\<lambda>i. 0.3 <
      final_scores (anomaly_scores plain busy hundred_rows) (length hundred_rows) ! i)
     [0..<length hundred_rows] = [0..<length hundred_rows]"
proof (rule filter_True)
  show "\<forall>i \<in> set [0..<length hundred_rows]. 0.3 <
      final_scores (anomaly_scores plain busy hundred_rows) (length hundred_rows) ! i"
  proof
    fix i
    assume "i \<in> set [0..<length hundred_rows]"
    then have "i < length hundred_rows"
      by simp
    then show "0.3 < final_scores (anomaly_scores plain busy hundred_rows) (length hundred_rows) ! i"
      by (rule scores_hundred_rows)
  qed
qed


section \<open>The cap of one fifth\<close>

text \<open>
  C3. The weighted score of a row is the weighted mean of its method scores: with the
  temporal method, 0.2 statistical, 0.25 text, 0.2 temporal, 0.15 severity, 0.2 pattern;
  without it, the weights of C10. Detection never returns more than a fifth of the rows
  (rounded down). On a table that reaches the combiner (10 rows or more), whenever more than
  20 percent of the rows have a weighted score above 0.3, detection returns the last
  \<open>floor(0.2 * rows)\<close> positions of \<open>np.argsort\<close> of the weighted scores: exactly that
  many indices, in ascending order of score, each of them scoring at least as high as every
  row that is not returned. Which of several rows of equal score are returned, and in which
  order, is up to \<open>np.argsort\<close>. When at most 20 percent of the rows score above 0.3, these
  rows are returned, in table order.
\<close>

theorem detect_anomalies_cap:
  "length (detect_anomalies u m df) \<le> length df div 5
   \<and> (\<forall>i < length df.
        final_scores (anomaly_scores u m df) (length df) ! i =
          (if 10 < notna_count df
           then 0.2 * detect_statistical_anomalies m df ! i + 0.25 * detect_text_anomalies m df ! i
                + 0.2 * detect_temporal_anomalies m df ! i + 0.15 * detect_severity_anomalies df ! i
                + 0.2 * detect_pattern_anomalies u df ! i
           else 0.25 * detect_statistical_anomalies m df ! i + 0.3125 * detect_text_anomalies m df ! i
                + 0.25 * detect_severity_anomalies df ! i + 0.1875 * detect_pattern_anomalies u df ! i))
   \<and> (10 \<le> length df
        \<and> length df < 5 * length (filter (\<lambda>i. 0.3 <
              final_scores (anomaly_scores u m df) (length df) ! i) [0..<length df])
      \<longrightarrow> detect_anomalies u m df =
            drop (length df - length df div 5)
              (argsort m (final_scores (anomaly_scores u m df) (length df)))
        \<and> length (detect_anomalies u m df) = length df div 5
        \<and> sorted (map (\<lambda>i. final_scores (anomaly_scores u m df) (length df) ! i)
             (detect_anomalies u m df))
        \<and> (\<forall>i \<in> set (detect_anomalies u m df). \<forall>j < length df.
              j \<notin> set (detect_anomalies u m df) \<longrightarrow>
              final_scores (anomaly_scores u m df) (length df) ! j
              \<le> final_scores (anomaly_scores u m df) (length df) ! i))
   \<and> (10 \<le> length df
        \<and> \<not> length df < 5 * length (filter (\<lambda>i. 0.3 <
              final_scores (anomaly_scores u m df) (length df) ! i) [0..<length df])
      \<longrightarrow> detect_anomalies u m df =
            filter (\<lambda>i. 0.3 < final_scores (anomaly_scores u m df) (length df) ! i) [0..<length df])"
proof -
  let ?fs = "final_scores (anomaly_scores u m df) (length df)"
  let ?flagged = "filter (\<lambda>i. 0.3 < ?fs ! i) [0..<length df]"
  let ?top = "drop (length df - length df div 5) (argsort m ?fs)"
  have len_top: "length ?top = length df div 5"
    by (simp add: length_argsort length_final_scores)
  have capped: "detect_anomalies u m df = ?top"
    if "10 \<le> length df" "length df < 5 * length ?flagged"
  proof -
    have "0 < length df div 5"
      using that(1) by arith
    then show ?thesis
      using that by (simp add: detect_anomalies_def combine_on_anomaly_scores Let_def last_k_def
            length_argsort length_final_scores)
  qed
  have kept: "detect_anomalies u m df = ?flagged"
    if "10 \<le> length df" "\<not> length df < 5 * length ?flagged"
    using that by (simp add: detect_anomalies_def combine_on_anomaly_scores Let_def)
  have bound: "length (detect_anomalies u m df) \<le> length df div 5"
  proof (cases "length df < 10")
    case True
    then show ?thesis by (simp add: detect_anomalies_def)
  next
    case False
    show ?thesis
    proof (cases "length df < 5 * length ?flagged")
      case True
      with False capped len_top show ?thesis by simp
    next
      case False
      with \<open>\<not> length df < 10\<close> kept have "detect_anomalies u m df = ?flagged"
        by simp
      with False show ?thesis by simp
    qed
  qed
  have top: "?fs ! j \<le> ?fs ! i" if "i \<in> set ?top" "j < length df" "j \<notin> set ?top" for i j
  proof -
    have "j \<in> set (argsort m ?fs)"
      using that(2) by (simp add: set_argsort length_final_scores)
    then have "j \<in> set (take (length df - length df div 5) (argsort m ?fs))"
      using that(3) by (metis Un_iff append_take_drop_id set_append)
    then show ?thesis
      using sorted_take_drop [OF sorted_argsort, of j _ m ?fs i] that(1) by simp
  qed
  have asc: "sorted (map (\<lambda>i. ?fs ! i) ?top)"
    using sorted_argsort by (rule sorted_map_drop)
  have score: "\<forall>i < length df. ?fs ! i =
          (if 10 < notna_count df
           then 0.2 * detect_statistical_anomalies m df ! i + 0.25 * detect_text_anomalies m df ! i
                + 0.2 * detect_temporal_anomalies m df ! i + 0.15 * detect_severity_anomalies df ! i
                + 0.2 * detect_pattern_anomalies u df ! i
           else 0.25 * detect_statistical_anomalies m df ! i + 0.3125 * detect_text_anomalies m df ! i
                + 0.25 * detect_severity_anomalies df ! i + 0.1875 * detect_pattern_anomalies u df ! i)"
    using final_scores_anomaly_scores by blast
  have cap: "detect_anomalies u m df = ?top \<and> length (detect_anomalies u m df) = length df div 5
        \<and> sorted (map (\<lambda>i. ?fs ! i) (detect_anomalies u m df))
        \<and> (\<forall>i \<in> set (detect_anomalies u m df). \<forall>j < length df.
              j \<notin> set (detect_anomalies u m df) \<longrightarrow> ?fs ! j \<le> ?fs ! i)"
    if "10 \<le> length df" "length df < 5 * length ?flagged"
    using capped [OF that] len_top asc top by simp
  show ?thesis
    using bound score cap kept by blast
qed

theorem detect_anomalies_cap_witness:
  "(10 \<le> length ten_stamped
    \<and> length ten_stamped < 5 * length (filter (\<lambda>i. 0.3 <
          final_scores (anomaly_scores plain busy ten_stamped) (length ten_stamped) ! i)
          [0..<length ten_stamped]))
   \<and> final_scores (anomaly_scores plain busy ten_stamped) (length ten_stamped) =
       [91/160, 91/160, 91/160, 131/160, 91/160, 91/160, 131/160, 91/160, 91/160, 91/160]
   \<and> length (detect_anomalies plain busy ten_stamped) = length ten_stamped div 5
   \<and> detect_anomalies plain busy ten_stamped = [6, 3]
   \<and> (10 \<le> length hundred_rows
    \<and> length hundred_rows < 5 * length (filter (\<lambda>i. 0.3 <
          final_scores (anomaly_scores plain busy hundred_rows) (length hundred_rows) ! i)
          [0..<length hundred_rows]))
   \<and> length (filter (\<lambda>i. 0.3 <
          final_scores (anomaly_scores plain busy hundred_rows) (length hundred_rows) ! i)
          [0..<length hundred_rows]) = 100
   \<and> length (detect_anomalies plain busy hundred_rows) = 20"
proof -
  have h: "10 \<le> length ten_stamped
    \<and> length ten_stamped < 5 * length (filter (\<lambda>i. 0.3 <
          final_scores (anomaly_scores plain busy ten_stamped) (length ten_stamped) ! i)
          [0..<length ten_stamped])"
    by (simp only: length_ten anomaly_scores_ten final_scores_ten flagged_ten) simp
  have f: "final_scores (anomaly_scores plain busy ten_stamped) (length ten_stamped) =
       [91/160, 91/160, 91/160, 131/160, 91/160, 91/160, 131/160, 91/160, 91/160, 91/160]"
    by (simp only: length_ten anomaly_scores_ten final_scores_ten)
  have a: "length (detect_anomalies plain busy ten_stamped) = length ten_stamped div 5"
    using detect_anomalies_cap [of plain busy ten_stamped] h by blast
  have n: "length (filter (\<lambda>i. 0.3 <
          final_scores (anomaly_scores plain busy hundred_rows) (length hundred_rows) ! i)
          [0..<length hundred_rows]) = 100"
    by (simp only: flagged_hundred_rows) (simp add: length_hundred_rows)
  have g: "10 \<le> length hundred_rows
    \<and> length hundred_rows < 5 * length (filter (\<lambda>i. 0.3 <
          final_scores (anomaly_scores plain busy hundred_rows) (length hundred_rows) ! i)
          [0..<length hundred_rows])"
    by (simp only: n) (simp add: length_hundred_rows)
  have "length (detect_anomalies plain busy hundred_rows) = length hundred_rows div 5"
    using detect_anomalies_cap [of plain busy hundred_rows] g by blast
  then have c: "length (detect_anomalies plain busy hundred_rows) = 20"
    by (simp add: length_hundred_rows)
  show ?thesis
    using h f a g n c ten_flagged by blast
qed


section \<open>Stripping, splitting and counting lines\<close>

lemma str_strip_eq_Nil_iff: "str_strip l = [] \<longleftrightarrow> (\<forall>c \<in> set l. isspace c)"
proof -
  let ?u = "dropWhile isspace l"
  have u: "?u = []" if "\<forall>x \<in> set ?u. isspace x"
  proof (rule ccontr)
    assume n: "?u \<noteq> []"
    then have "\<not> isspace (hd ?u)"
      by (rule hd_dropWhile)
    moreover have "hd ?u \<in> set ?u"
      using n by (rule hd_in_set)
    ultimately show False using that by blast
  qed
  have "str_strip l = [] \<longleftrightarrow> dropWhile isspace (rev ?u) = []"
    by (simp only: str_strip_def rev_is_Nil_conv)
  also have "\<dots> \<longleftrightarrow> (\<forall>x \<in> set ?u. isspace x)"
    by (simp only: dropWhile_eq_Nil_conv set_rev)
  also have "\<dots> \<longleftrightarrow> ?u = []"
  proof
    assume "\<forall>x \<in> set ?u. isspace x"
    then show "?u = []" by (rule u)
  next
    assume e: "?u = []"
    show "\<forall>x \<in> set ?u. isspace x"
      unfolding e by simp
  qed
  also have "\<dots> \<longleftrightarrow> (\<forall>c \<in> set l. isspace c)"
    by (simp only: dropWhile_eq_Nil_conv)
  finally show ?thesis .
qed

lemma dropWhile_unchanged: "xs \<noteq> [] \<Longrightarrow> \<not> P (hd xs) \<Longrightarrow> dropWhile P xs = xs"
  by (cases xs) simp_all

lemma last_dropWhile: "dropWhile P xs \<noteq> [] \<Longrightarrow> last (dropWhile P xs) = last xs"
  by (induction xs) (auto split: if_splits)

lemma str_strip_hd: "str_strip s \<noteq> [] \<Longrightarrow> \<not> isspace (hd (str_strip s))"
proof -
  assume n: "str_strip s \<noteq> []"
  let ?u = "dropWhile isspace s"
  let ?v = "dropWhile isspace (rev ?u)"
  have v: "?v \<noteq> []" using n by (simp add: str_strip_def)
  have u: "?u \<noteq> []"
  proof
    assume e: "?u = []"
    have "?v = []" unfolding e by simp
    with v show False by blast
  qed
  have "hd (str_strip s) = last ?v"
    using v by (simp add: str_strip_def hd_rev)
  also have "\<dots> = last (rev ?u)"
    using v by (rule last_dropWhile)
  also have "\<dots> = hd ?u"
    using u by (simp add: last_rev)
  finally show ?thesis
    using hd_dropWhile [OF u] by simp
qed

lemma str_strip_last: "str_strip s \<noteq> [] \<Longrightarrow> \<not> isspace (last (str_strip s))"
proof -
  assume n: "str_strip s \<noteq> []"
  let ?v = "dropWhile isspace (rev (dropWhile isspace s))"
  have v: "?v \<noteq> []" using n by (simp add: str_strip_def)
  have "last (str_strip s) = hd ?v"
    using v by (simp add: str_strip_def last_rev)
  then show ?thesis
    using hd_dropWhile [OF v] by simp
qed

lemma str_strip_idem: "str_strip (str_strip s) = str_strip s"
proof (cases "str_strip s = []")
  case True
  have "str_strip [] = []"
    by (simp add: str_strip_def)
  then show ?thesis
    by (simp only: True)
next
  case False
  let ?t = "str_strip s"
  have a: "dropWhile isspace ?t = ?t"
    using False str_strip_hd by (simp add: dropWhile_unchanged)
  have "hd (rev ?t) = last ?t"
    using False by (simp add: hd_rev)
  then have b: "dropWhile isspace (rev ?t) = rev ?t"
    using False str_strip_last by (simp add: dropWhile_unchanged)
  have "str_strip ?t = rev (dropWhile isspace (rev (dropWhile isspace ?t)))"
    by (simp add: str_strip_def)
  then show ?thesis
    by (simp only: a b rev_rev_ident)
qed

lemma split_nl_not_Nil: "split_nl s \<noteq> []"
  by (induction s) (auto split: list.splits)

lemma str_strip_Nil: "str_strip [] = []"
  by (simp add: str_strip_def)

lemma nonblank_lines_Cons:
  "isspace c \<Longrightarrow>
   length (filter (\<lambda>l. str_strip l \<noteq> []) (split_nl (c # s))) =
   length (filter (\<lambda>l. str_strip l \<noteq> []) (split_nl s))"
proof (cases "c = 0x0A")
  case True
  then show ?thesis by (simp add: str_strip_Nil)
next
  case False
  assume c: "isspace c"
  obtain l ls where e: "split_nl s = l # ls"
    using split_nl_not_Nil [of s] by (cases "split_nl s") auto
  have "str_strip (c # l) = [] \<longleftrightarrow> str_strip l = []"
    using c by (simp add: str_strip_eq_Nil_iff)
  then show ?thesis
    using False e by simp
qed

lemma nonblank_lines_lstrip:
  "length (filter (\<lambda>l. str_strip l \<noteq> []) (split_nl (dropWhile isspace s))) =
   length (filter (\<lambda>l. str_strip l \<noteq> []) (split_nl s))"
proof (induction s)
  case Nil
  then show ?case by simp
next
  case (Cons c s)
  then show ?case
    using nonblank_lines_Cons [of c s] by (cases "isspace c") simp_all
qed

lemma split_nl_snoc:
  "split_nl (s @ [c]) =
     (if c = 0x0A then split_nl s @ [[]]
      else butlast (split_nl s) @ [last (split_nl s) @ [c]])"
proof (induction s)
  case Nil
  then show ?case by simp
next
  case (Cons x xs)
  obtain l ls where e: "split_nl xs = l # ls"
    using split_nl_not_Nil [of xs] by (cases "split_nl xs") auto
  show ?case
  proof (cases "c = 0x0A")
    case True
    then show ?thesis using Cons e by simp
  next
    case False
    then show ?thesis using Cons e by (cases ls) simp_all
  qed
qed

lemma nonblank_lines_snoc:
  "isspace c \<Longrightarrow>
   length (filter (\<lambda>l. str_strip l \<noteq> []) (split_nl (s @ [c]))) =
   length (filter (\<lambda>l. str_strip l \<noteq> []) (split_nl s))"
proof (cases "c = 0x0A")
  case True
  then show ?thesis by (simp add: split_nl_snoc str_strip_Nil)
next
  case False
  assume c: "isspace c"
  let ?ys = "split_nl s"
  have e: "?ys = butlast ?ys @ [last ?ys]"
    using split_nl_not_Nil [of s] by simp
  have b: "str_strip (last ?ys @ [c]) = [] \<longleftrightarrow> str_strip (last ?ys) = []"
    using c by (simp add: str_strip_eq_Nil_iff)
  have "length (filter (\<lambda>l. str_strip l \<noteq> []) (butlast ?ys @ [last ?ys @ [c]])) =
        length (filter (\<lambda>l. str_strip l \<noteq> []) (butlast ?ys @ [last ?ys]))"
    using b by simp
  then show ?thesis
    using False by (simp only: split_nl_snoc if_False e [symmetric])
qed

lemma nonblank_lines_rstrip:
  "length (filter (\<lambda>l. str_strip l \<noteq> []) (split_nl (rev (dropWhile isspace (rev s))))) =
   length (filter (\<lambda>l. str_strip l \<noteq> []) (split_nl s))"
proof (induction s rule: rev_induct)
  case Nil
  then show ?case by simp
next
  case (snoc c s)
  then show ?case
    using nonblank_lines_snoc [of c s] by (cases "isspace c") simp_all
qed

lemma nonblank_lines_strip:
  "length (filter (\<lambda>l. str_strip l \<noteq> []) (split_nl (str_strip s))) =
   length (filter (\<lambda>l. str_strip l \<noteq> []) (split_nl s))"
  unfolding str_strip_def [of s]
  by (simp only: nonblank_lines_rstrip nonblank_lines_lstrip)

lemma parse_single_line_total:
  "str_strip line \<noteq> [] \<Longrightarrow> \<exists>e. parse_single_line u line line_num = Some e"
  by (simp add: parse_single_line_def Let_def split: option.splits)

lemma length_parse_lines:
  "length (parse_lines u line_num ls) = length (filter (\<lambda>l. str_strip l \<noteq> []) ls)"
proof (induction ls arbitrary: line_num)
  case Nil
  then show ?case by simp
next
  case (Cons l ls)
  show ?case
  proof (cases "str_strip l = []")
    case True
    then show ?thesis using Cons by simp
  next
    case False
    then obtain e where "parse_single_line u l line_num = Some e"
      using parse_single_line_total by blast
    then show ?thesis using False Cons by simp
  qed
qed

lemma length_parsed_entries:
  "length (parsed_entries u log_content) =
   length (filter (\<lambda>l. str_strip l \<noteq> []) (split_nl log_content))"
  by (simp add: parsed_entries_def length_parse_lines nonblank_lines_strip)


lemma parse_timestamp_raises:
  "parse_timestamp u strptime to_datetime x = Inl e \<Longrightarrow> e = OverflowError"
  by (cases e) (auto simp: parse_timestamp_def Let_def split: option.splits if_splits sum.splits prod.splits)

lemma apply_parse_timestamp_result:
  "(\<exists>ts. apply_parse_timestamp u strptime to_datetime xs = Inr ts \<and> length ts = length xs)
   \<or> apply_parse_timestamp u strptime to_datetime xs = Inl OverflowError"
proof (induction xs)
  case Nil
  then show ?case by simp
next
  case (Cons x xs)
  show ?case
  proof (cases "parse_timestamp u strptime to_datetime x")
    case (Inl e)
    then show ?thesis
      using parse_timestamp_raises [OF Inl] by simp
  next
    case (Inr t)
    then show ?thesis
      using Cons by auto
  qed
qed

lemma post_process_dataframe_result:
  "(\<exists>table. post_process_dataframe u strptime to_datetime df = Inr table \<and> length table = length df)
   \<or> post_process_dataframe u strptime to_datetime df = Inl OverflowError"
  using apply_parse_timestamp_result [of u strptime to_datetime "map (\<lambda>e. cell e ''timestamp'') df"]
  by (auto simp: post_process_dataframe_def)

lemma parse_logs_result:
  "(\<exists>table. parse_logs u strptime to_datetime log_content = Inr table
        \<and> length table = length (parsed_entries u log_content))
   \<or> parse_logs u strptime to_datetime log_content = Inl OverflowError"
  using post_process_dataframe_result [of u strptime to_datetime "parsed_entries u log_content"]
  by (auto simp: parse_logs_def Let_def)

text \<open>
  Batch parsing either delivers a table with one row for every non-blank line of the text,
  or ends with the \<open>OverflowError\<close> of timestamp coercion.
\<close>

lemma parse_logs_rows_or_overflow:
  "(\<exists>table. parse_logs u strptime to_datetime log_content = Inr table
        \<and> length table = length (filter (\<lambda>l. str_strip l \<noteq> []) (split_nl log_content)))
   \<or> parse_logs u strptime to_datetime log_content = Inl OverflowError"
  using parse_logs_result [of u strptime to_datetime log_content]
  by (simp only: length_parsed_entries)


section \<open>Line parsing and its error outcome\<close>

text \<open>
  C5. The specification has line parsing total, with no error outcome: one record for every
  non-blank line, so as many rows as non-blank lines. The line parser itself is total, and
  the line \<open>###???***\<close> alone gives the record the specification describes: severity
  \<open>INFO\<close>, source \<open>unknown\<close>, pattern \<open>fallback\<close>, the line as message. But the table is
  built by post-processing, which coerces the timestamps, and that raises
  \<open>OverflowError\<close> on a timestamp of twenty nines (C6): for the text of the two lines
  \<open>###???***\<close> and \<open>a.com 1.2.3.4 99999999999999999999 INFO 5\<close>, both non-blank and both
  parsed into an entry, batch parsing ends with the exception and delivers no record at all,
  whatever \<open>strptime\<close> and \<open>to_datetime\<close> do.
\<close>

theorem line_parsing_loses_records:
  "parse_logs u strptime to_datetime (cps ''###???***'') =
       Inr [\<lparr>line_number = 1, raw_line = cps ''###???***'', pattern_used = ''fallback'',
             timestamp = None, severity = Some (cps ''INFO''), source = cps ''unknown'',
             message = Some (cps ''###???***''), has_timestamp = False,
             message_length = Some 9, word_count = Some 1\<rparr>]
   \<and> length (filter (\<lambda>l. str_strip l \<noteq> []) (split_nl gibberish_then_overflow)) = 2
   \<and> map pattern_used (parsed_entries u gibberish_then_overflow) = [''fallback'', ''custom_domain'']
   \<and> parse_logs u strptime to_datetime gibberish_then_overflow = Inl OverflowError"
  by code_simp


section \<open>What the severity group captures\<close>

lemma rmatch_consumes:
  "(s', g') \<in> set (rmatch u r (s, g)) \<Longrightarrow> length s' + min_len r \<le> length s"
proof (induction r arbitrary: s g s' g')
  case Eps
  then show ?case by simp
next
  case (Chr k)
  then show ?case by (auto split: list.splits if_splits)
next
  case (Seq r1 r2)
  then obtain s1 g1 where "(s1, g1) \<in> set (rmatch u r1 (s, g))" "(s', g') \<in> set (rmatch u r2 (s1, g1))"
    by auto
  then show ?case
    using Seq.IH(1) [of s1 g1 s g] Seq.IH(2) [of s' g' s1 g1] by simp
next
  case (Alt r1 r2)
  from Alt.prems consider
    (left) "(s', g') \<in> set (rmatch u r1 (s, g))" | (right) "(s', g') \<in> set (rmatch u r2 (s, g))"
    by auto
  then show ?case
  proof cases
    case left
    from Alt.IH(1) [OF left] show ?thesis by simp
  next
    case right
    from Alt.IH(2) [OF right] show ?thesis by simp
  qed
next
  case (Opt r)
  from Opt.prems consider
    (taken) "(s', g') \<in> set (rmatch u r (s, g))" | (omitted) "s' = s"
    by auto
  then show ?case
  proof cases
    case taken
    from Opt.IH [OF taken] show ?thesis by simp
  next
    case omitted
    then show ?thesis by simp
  qed
next
  case (Rep lo hi k)
  let ?n = "length (takeWhile (in_class u k) s)"
  define m where "m = (case hi of None \<Rightarrow> ?n | Some h \<Rightarrow> min h ?n)"
  have mn: "m \<le> ?n"
    by (simp add: m_def split: option.splits)
  from Rep.prems have "(s', g') \<in> set (map (\<lambda>j. (drop j s, g)) (rev [lo..<Suc m]))"
    by (simp add: Let_def m_def)
  then obtain j where "lo \<le> j" "j \<le> m" "s' = drop j s"
    by auto
  with mn have j: "lo \<le> j" "j \<le> ?n" "s' = drop j s"
    by simp_all
  have "?n \<le> length s"
    by (rule length_takeWhile_le)
  then show ?case
    using j by simp
next
  case (Grp name r)
  then show ?case
    using Grp.IH by auto
qed

lemma rmatch_keeps:
  "(s', g') \<in> set (rmatch u r (s, g)) \<Longrightarrow> n \<notin> set (group_names r) \<Longrightarrow> map_of g' n = map_of g n"
proof (induction r arbitrary: s g s' g')
  case Eps
  then show ?case by simp
next
  case (Chr k)
  then show ?case by (auto split: list.splits if_splits)
next
  case (Seq r1 r2)
  then obtain s1 g1 where "(s1, g1) \<in> set (rmatch u r1 (s, g))" "(s', g') \<in> set (rmatch u r2 (s1, g1))"
    by auto
  then show ?case
    using Seq.IH(1) [of s1 g1 s g] Seq.IH(2) [of s' g' s1 g1] Seq.prems(2) by simp
next
  case (Alt r1 r2)
  from Alt.prems consider
    (left) "(s', g') \<in> set (rmatch u r1 (s, g))" | (right) "(s', g') \<in> set (rmatch u r2 (s, g))"
    by auto
  then show ?case
  proof cases
    case left
    from Alt.IH(1) [OF left] Alt.prems(2) show ?thesis by simp
  next
    case right
    from Alt.IH(2) [OF right] Alt.prems(2) show ?thesis by simp
  qed
next
  case (Opt r)
  then show ?case
    using Opt.IH [of s' g' s g] by auto
next
  case (Rep lo hi k)
  then show ?case
    by (auto simp: Let_def)
next
  case (Grp name r)
  then show ?case
    using Grp.IH by auto
qed

lemma rmatch_binds:
  "(s', g') \<in> set (rmatch u r (s, g)) \<Longrightarrow> binds n r \<Longrightarrow> \<exists>tok. tok \<noteq> [] \<and> map_of g' n = Some tok"
proof (induction r arbitrary: s g s' g')
  case Eps
  then show ?case by simp
next
  case (Chr k)
  then show ?case by simp
next
  case (Seq r1 r2)
  then obtain s1 g1 where m: "(s1, g1) \<in> set (rmatch u r1 (s, g))" "(s', g') \<in> set (rmatch u r2 (s1, g1))"
    by auto
  show ?case
  proof (cases "binds n r2")
    case True
    then show ?thesis using Seq.IH(2) [OF m(2)] by simp
  next
    case False
    then have b: "binds n r1" "n \<notin> set (group_names r2)"
      using Seq.prems(2) by auto
    then show ?thesis
      using Seq.IH(1) [OF m(1) b(1)] rmatch_keeps [OF m(2) b(2)] by simp
  qed
next
  case (Alt r1 r2)
  from Alt.prems consider
    (left) "(s', g') \<in> set (rmatch u r1 (s, g))" | (right) "(s', g') \<in> set (rmatch u r2 (s, g))"
    by auto
  then show ?case
  proof cases
    case left
    from Alt.IH(1) [OF left] Alt.prems(2) show ?thesis by simp
  next
    case right
    from Alt.IH(2) [OF right] Alt.prems(2) show ?thesis by simp
  qed
next
  case (Opt r)
  then show ?case by simp
next
  case (Rep lo hi k)
  then show ?case by simp
next
  case (Grp name r)
  then obtain g0 where m: "(s', g0) \<in> set (rmatch u r (s, g))"
      and g': "g' = (name, take (length s - length s') s) # g0"
    by auto
  show ?case
  proof (cases "name = n")
    case True
    then have "0 < min_len r" using Grp.prems(2) by simp
    then have "length s' < length s"
      using rmatch_consumes [OF m] by simp
    then have "take (length s - length s') s \<noteq> []"
      by auto
    then show ?thesis using True g' by simp
  next
    case False
    then show ?thesis
      using Grp.IH [OF m] Grp.prems(2) g' by simp
  qed
qed

lemma binds_patterns:
  "list_all (\<lambda>(pattern_name, pattern).
      binds ''severity'' pattern \<or> ''severity'' \<notin> set (group_names pattern)) patterns"
  by code_simp


lemma binds_group_names: "binds n r \<Longrightarrow> n \<in> set (group_names r)"
  by (induction r) (auto split: if_splits)

lemma map_of_groupdict:
  "map_of (map (\<lambda>n. (n, f n)) ns) n = (if n \<in> set ns then Some (f n) else None)"
  by (simp add: map_of_map_restrict restrict_map_def)

lemma re_match_binds:
  "re_match u r l = Some gd \<Longrightarrow> binds n r \<Longrightarrow> \<exists>tok. tok \<noteq> [] \<and> map_of gd n = Some (Some tok)"
proof -
  assume m: "re_match u r l = Some gd" and b: "binds n r"
  from m obtain rest g others where h: "rmatch u r (l, []) = (rest, g) # others"
      and gd: "gd = map (\<lambda>n. (n, map_of g n)) (group_names r)"
    by (auto simp: re_match_def split: list.splits)
  have "(rest, g) \<in> set (rmatch u r (l, []))"
    using h by simp
  then obtain tok where "tok \<noteq> []" "map_of g n = Some tok"
    using rmatch_binds [OF _ b] by blast
  then show ?thesis
    using binds_group_names [OF b] by (simp add: gd map_of_groupdict)
qed

lemma re_match_absent:
  "re_match u r l = Some gd \<Longrightarrow> n \<notin> set (group_names r) \<Longrightarrow> map_of gd n = None"
  by (auto simp: re_match_def map_of_groupdict split: list.splits)

lemma info_not_Nil: "cps ''INFO'' \<noteq> []"
  by (simp add: cps_def)

lemma setdefault_apply:
  "setdefault k d e k' =
     (if k' = k then (case e k of None \<Rightarrow> Some d | Some v \<Rightarrow> Some v) else e k')"
  by (simp add: setdefault_def split: option.splits)

lemma dict_build_entry_severity:
  "dict (build_entry pattern_name gd l line_num) ''severity'' =
     (case map_of gd ''severity'' of None \<Rightarrow> Some (Some (cps ''INFO'')) | Some v \<Rightarrow> Some v)"
  by (simp add: build_entry_def Let_def setdefault_apply)

lemma cell_build_entry_default:
  "map_of gd ''severity'' = None \<Longrightarrow>
   cell (build_entry pattern_name gd l line_num) ''severity'' = Some (cps ''INFO'')"
  by (simp add: cell_def dict_build_entry_severity)

lemma cell_build_entry_group:
  "map_of gd ''severity'' = Some (Some tok) \<Longrightarrow>
   cell (build_entry pattern_name gd l line_num) ''severity'' = Some tok"
  by (simp add: cell_def dict_build_entry_severity)

lemma try_patterns_severity:
  "list_all (\<lambda>(pattern_name, pattern).
      binds ''severity'' pattern \<or> ''severity'' \<notin> set (group_names pattern)) ps \<Longrightarrow>
   try_patterns u ps l line_num = Some e \<Longrightarrow>
   \<exists>tok. tok \<noteq> [] \<and> cell e ''severity'' = Some tok"
proof (induction ps)
  case Nil
  then show ?case by simp
next
  case (Cons p ps)
  obtain pattern_name pattern where p: "p = (pattern_name, pattern)"
    by (cases p) auto
  show ?case
  proof (cases "re_match u pattern l")
    case None
    then show ?thesis
      using Cons p by simp
  next
    case (Some gd)
    then have e: "e = build_entry pattern_name gd l line_num"
      using Cons.prems(2) p by simp
    from Cons.prems(1) p consider
      (bound) "binds ''severity'' pattern" | (absent) "''severity'' \<notin> set (group_names pattern)"
      by auto
    then show ?thesis
    proof cases
      case bound
      from re_match_binds [OF Some bound] obtain tok where
        "tok \<noteq> []" "map_of gd ''severity'' = Some (Some tok)"
        by blast
      then show ?thesis
        using e cell_build_entry_group by blast
    next
      case absent
      from re_match_absent [OF Some absent] have "cell e ''severity'' = Some (cps ''INFO'')"
        unfolding e by (rule cell_build_entry_default)
      then show ?thesis by (simp add: info_not_Nil)
    qed
  qed
qed

lemma parse_single_line_severity:
  "parse_single_line u line line_num = Some e \<Longrightarrow> \<exists>tok. tok \<noteq> [] \<and> cell e ''severity'' = Some tok"
proof -
  assume a: "parse_single_line u line line_num = Some e"
  show ?thesis
  proof (cases "try_patterns u patterns (str_strip line) line_num")
    case None
    then have "e = basic_entry (str_strip line) line_num"
      using a by (simp add: parse_single_line_def Let_def split: if_splits)
    then show ?thesis
      by (simp add: basic_entry_def cell_def info_not_Nil)
  next
    case (Some e')
    then have "e = e'"
      using a by (simp add: parse_single_line_def Let_def split: if_splits)
    then show ?thesis
      using try_patterns_severity [OF binds_patterns Some] by simp
  qed
qed

lemma parse_lines_severity:
  "e \<in> set (parse_lines u line_num ls) \<Longrightarrow> \<exists>tok. tok \<noteq> [] \<and> cell e ''severity'' = Some tok"
proof (induction ls arbitrary: line_num)
  case Nil
  then show ?case by simp
next
  case (Cons l ls)
  then show ?case
    using parse_single_line_severity [of u l line_num]
    by (auto split: if_splits option.splits)
qed

lemma apply_parse_timestamp_length:
  "apply_parse_timestamp u strptime to_datetime xs = Inr ts \<Longrightarrow> length ts = length xs"
  using apply_parse_timestamp_result [of u strptime to_datetime xs] by auto

lemma post_process_dataframe_nth:
  "post_process_dataframe u strptime to_datetime df = Inr table \<Longrightarrow> i < length table \<Longrightarrow>
   i < length df \<and> (\<exists>t. table ! i = post_process_row u (df ! i) t)"
proof -
  assume a: "post_process_dataframe u strptime to_datetime df = Inr table" and i: "i < length table"
  from a obtain ts where ts: "apply_parse_timestamp u strptime to_datetime (map (\<lambda>e. cell e ''timestamp'') df) = Inr ts"
      and t: "table = map (\<lambda>(e, t). post_process_row u e t) (zip df ts)"
    by (auto simp: post_process_dataframe_def split: sum.splits)
  have "length ts = length df"
    using apply_parse_timestamp_length [OF ts] by simp
  then show ?thesis
    using i t by auto
qed

lemma upper_cp_not_Nil: "upper_cp u c \<noteq> []"
  by (simp add: upper_cp_def split: prod.splits)

lemma str_upper_eq_Nil: "str_upper u tok = [] \<longleftrightarrow> tok = []"
  by (cases tok) (simp_all add: str_upper_def upper_cp_not_Nil)

lemma upper_cp_ascii:
  "c < 128 \<Longrightarrow> upper_cp u c = [if 97 \<le> c \<and> c \<le> 122 then c - 32 else c]"
  by (simp add: upper_cp_def)

lemma str_upper_ascii:
  "list_all (\<lambda>c. c < 128) tok \<Longrightarrow>
   str_upper u tok = map (\<lambda>c. if 97 \<le> c \<and> c \<le> 122 then c - 32 else c) tok"
  by (induction tok) (simp_all add: str_upper_def upper_cp_ascii)

lemma upper_cp_ascii_cong:
  "c < 128 \<Longrightarrow> d < 128 \<Longrightarrow> ascii_lower c = ascii_lower d \<Longrightarrow> upper_cp u c = upper_cp u d"
  by (simp add: upper_cp_ascii) (auto simp: ascii_lower_def split: if_splits)

lemma str_upper_ascii_cong:
  "list_all (\<lambda>c. c < 128) s \<Longrightarrow> list_all (\<lambda>c. c < 128) t \<Longrightarrow>
   map ascii_lower s = map ascii_lower t \<Longrightarrow> str_upper u s = str_upper u t"
proof (induction s arbitrary: t)
  case Nil
  then show ?case by simp
next
  case (Cons c s)
  then obtain d t' where t: "t = d # t'"
    by (cases t) auto
  have "upper_cp u c = upper_cp u d"
    using Cons.prems t by (simp add: upper_cp_ascii_cong)
  moreover have "str_upper u s = str_upper u t'"
    using Cons.IH [of t'] Cons.prems t by simp
  ultimately show ?case
    by (simp add: str_upper_def t)
qed

lemma normalize_severity_table:
  "normalize_severity u tok =
      (if tok = [] then cps ''INFO''
       else if str_upper u tok \<in> {cps ''FATAL'', cps ''CRITICAL''} then cps ''FATAL''
       else if str_upper u tok \<in> {cps ''ERROR'', cps ''ERR''} then cps ''ERROR''
       else if str_upper u tok \<in> {cps ''WARN'', cps ''WARNING''} then cps ''WARNING''
       else if str_upper u tok \<in> {cps ''INFO'', cps ''INFORMATION'', cps ''NOTICE'', cps ''TEST'',
                                   cps ''REST'', cps ''JSON'', cps ''RAW''} then cps ''INFO''
       else if str_upper u tok \<in> {cps ''DEBUG'', cps ''TRACE''} then cps ''DEBUG''
       else str_upper u tok)"
  by (simp add: normalize_severity_def severity_mapping_def Let_def str_upper_eq_Nil cps_def)

lemma parse_quux:
  "parse_logs plain (\<lambda>s f. None) (\<lambda>s. None) (cps ''a.com 1.2.3.4 1700000000 quux 5'') =
     Inr [\<lparr>line_number = 1, raw_line = cps ''a.com 1.2.3.4 1700000000 quux 5'',
           pattern_used = ''custom_domain'', timestamp = Some 1700000000000000,
           severity = Some (cps ''QUUX''), source = cps ''a.com'',
           message = Some (cps ''a.com 1.2.3.4 quux 5''),
           has_timestamp = True, message_length = Some 20, word_count = Some 4\<rparr>]"
  by code_simp

lemma normalize_examples:
  "normalize_severity plain (cps ''fatal'') = cps ''FATAL''"
  "normalize_severity plain (cps ''Critical'') = cps ''FATAL''"
  "normalize_severity plain (cps ''error'') = cps ''ERROR''"
  "normalize_severity plain (cps ''Err'') = cps ''ERROR''"
  "normalize_severity plain (cps ''warn'') = cps ''WARNING''"
  "normalize_severity plain (cps ''WaRnInG'') = cps ''WARNING''"
  "normalize_severity plain (cps ''info'') = cps ''INFO''"
  "normalize_severity plain (cps ''Information'') = cps ''INFO''"
  "normalize_severity plain (cps ''notice'') = cps ''INFO''"
  "normalize_severity plain (cps ''Test'') = cps ''INFO''"
  "normalize_severity plain (cps ''rest'') = cps ''INFO''"
  "normalize_severity plain (cps ''Json'') = cps ''INFO''"
  "normalize_severity plain (cps ''raw'') = cps ''INFO''"
  "normalize_severity plain (cps ''debug'') = cps ''DEBUG''"
  "normalize_severity plain (cps ''Trace'') = cps ''DEBUG''"
  "normalize_severity plain (cps ''quux'') = cps ''QUUX''"
  "normalize_severity plain [0xB5] = [0x39C]"
  "normalize_severity plain [0xFF] = [0x178]"
  "normalize_severity plain [0x73, 0x74, 0x72, 0x61, 0xDF, 0x65] = cps ''STRASSE''"
  by code_simp+


section \<open>Severity normalisation\<close>

text \<open>
  C8. Severity normalisation upper-cases the token (\<open>str.upper\<close>) and maps \<open>FATAL\<close>,
  \<open>CRITICAL\<close> to \<open>FATAL\<close>; \<open>ERROR\<close>, \<open>ERR\<close> to \<open>ERROR\<close>; \<open>WARN\<close>, \<open>WARNING\<close> to
  \<open>WARNING\<close>; \<open>INFO\<close>, \<open>INFORMATION\<close>, \<open>NOTICE\<close>, \<open>TEST\<close>, \<open>REST\<close>, \<open>JSON\<close>, \<open>RAW\<close>
  to \<open>INFO\<close>; \<open>DEBUG\<close>, \<open>TRACE\<close> to \<open>DEBUG\<close>; every other token passes through
  upper-cased (the empty token, which no parsed line has, becomes \<open>INFO\<close>). The keys are
  matched without regard to case: on an ASCII token upper-casing moves \<open>a\<close> to \<open>z\<close> to
  \<open>A\<close> to \<open>Z\<close> and changes nothing else, so two ASCII tokens that differ in the case of
  their letters only are normalised alike. This is applied to every record of every parsed
  table: the severity of row \<open>i\<close> is the normalisation of the raw severity token of entry
  \<open>i\<close>, and that token is never null or empty (it is a match of \<open>\w+\<close>, of the
  alternation of the \<open>simple\<close> pattern, or the default \<open>INFO\<close>).
\<close>

theorem severity_normalization:
  "normalize_severity u tok =
      (if tok = [] then cps ''INFO''
       else if str_upper u tok \<in> {cps ''FATAL'', cps ''CRITICAL''} then cps ''FATAL''
       else if str_upper u tok \<in> {cps ''ERROR'', cps ''ERR''} then cps ''ERROR''
       else if str_upper u tok \<in> {cps ''WARN'', cps ''WARNING''} then cps ''WARNING''
       else if str_upper u tok \<in> {cps ''INFO'', cps ''INFORMATION'', cps ''NOTICE'', cps ''TEST'',
                                   cps ''REST'', cps ''JSON'', cps ''RAW''} then cps ''INFO''
       else if str_upper u tok \<in> {cps ''DEBUG'', cps ''TRACE''} then cps ''DEBUG''
       else str_upper u tok)
   \<and> (list_all (\<lambda>c. c < 128) tok \<longrightarrow>
        str_upper u tok = map (\<lambda>c. if 97 \<le> c \<and> c \<le> 122 then c - 32 else c) tok)
   \<and> (list_all (\<lambda>c. c < 128) tok \<and> list_all (\<lambda>c. c < 128) tok'
        \<and> map ascii_lower tok = map ascii_lower tok'
      \<longrightarrow> normalize_severity u tok = normalize_severity u tok')
   \<and> (parse_logs u strptime to_datetime log_content = Inr table \<and> i < length table \<longrightarrow>
        (\<exists>raw. raw \<noteq> [] \<and> cell (parsed_entries u log_content ! i) ''severity'' = Some raw
               \<and> severity (table ! i) = Some (normalize_severity u raw)))"
proof -
  have c: "normalize_severity u tok = normalize_severity u tok'"
    if "list_all (\<lambda>c. c < 128) tok" "list_all (\<lambda>c. c < 128) tok'"
       "map ascii_lower tok = map ascii_lower tok'"
    using str_upper_ascii_cong [OF that, of u] by (simp add: normalize_severity_def)
  have b: "\<exists>raw. raw \<noteq> [] \<and> cell (parsed_entries u log_content ! i) ''severity'' = Some raw
               \<and> severity (table ! i) = Some (normalize_severity u raw)"
    if p: "parse_logs u strptime to_datetime log_content = Inr table" and i: "i < length table"
  proof -
    have "post_process_dataframe u strptime to_datetime (parsed_entries u log_content) = Inr table"
      using p i by (auto simp: parse_logs_def Let_def split: if_splits)
    from post_process_dataframe_nth [OF this i] obtain t where
      l: "i < length (parsed_entries u log_content)"
      and r: "table ! i = post_process_row u (parsed_entries u log_content ! i) t"
      by blast
    have "parsed_entries u log_content ! i \<in> set (parse_lines u 1 (split_nl (str_strip log_content)))"
      using l by (simp add: parsed_entries_def)
    from parse_lines_severity [OF this] obtain raw where
      "raw \<noteq> []" "cell (parsed_entries u log_content ! i) ''severity'' = Some raw"
      by blast
    then show ?thesis
      using r by (auto simp: post_process_row_def Let_def)
  qed
  show ?thesis
    using normalize_severity_table [of u tok] str_upper_ascii [of tok u] c b by blast
qed

theorem severity_normalization_witness:
  "list_all (\<lambda>c. c < 128) (cps ''quux'') \<and> list_all (\<lambda>c. c < 128) (cps ''QuUx'')
   \<and> map ascii_lower (cps ''quux'') = map ascii_lower (cps ''QuUx'')
   \<and> normalize_severity plain (cps ''QuUx'') = cps ''QUUX''
   \<and> normalize_severity plain (cps ''fatal'') = cps ''FATAL''
   \<and> normalize_severity plain (cps ''Critical'') = cps ''FATAL''
   \<and> normalize_severity plain (cps ''error'') = cps ''ERROR''
   \<and> normalize_severity plain (cps ''Err'') = cps ''ERROR''
   \<and> normalize_severity plain (cps ''warn'') = cps ''WARNING''
   \<and> normalize_severity plain (cps ''WaRnInG'') = cps ''WARNING''
   \<and> normalize_severity plain (cps ''info'') = cps ''INFO''
   \<and> normalize_severity plain (cps ''Information'') = cps ''INFO''
   \<and> normalize_severity plain (cps ''notice'') = cps ''INFO''
   \<and> normalize_severity plain (cps ''Test'') = cps ''INFO''
   \<and> normalize_severity plain (cps ''rest'') = cps ''INFO''
   \<and> normalize_severity plain (cps ''Json'') = cps ''INFO''
   \<and> normalize_severity plain (cps ''raw'') = cps ''INFO''
   \<and> normalize_severity plain (cps ''debug'') = cps ''DEBUG''
   \<and> normalize_severity plain (cps ''Trace'') = cps ''DEBUG''
   \<and> normalize_severity plain (cps ''quux'') = cps ''QUUX''
   \<and> normalize_severity plain [0xB5] = [0x39C]
   \<and> normalize_severity plain [0xFF] = [0x178]
   \<and> normalize_severity plain [0x73, 0x74, 0x72, 0x61, 0xDF, 0x65] = cps ''STRASSE''
   \<and> (\<exists>table. parse_logs plain (\<lambda>s f. None) (\<lambda>s. None) (cps ''a.com 1.2.3.4 1700000000 quux 5'') = Inr table
        \<and> 0 < length table
        \<and> (\<exists>raw. raw \<noteq> []
              \<and> cell (parsed_entries plain (cps ''a.com 1.2.3.4 1700000000 quux 5'') ! 0) ''severity'' = Some raw
              \<and> severity (table ! 0) = Some (normalize_severity plain raw))
        \<and> severity (table ! 0) = Some (cps ''QUUX''))"
proof -
  let ?row = "\<lparr>line_number = 1, raw_line = cps ''a.com 1.2.3.4 1700000000 quux 5'',
           pattern_used = ''custom_domain'', timestamp = Some 1700000000000000,
           severity = Some (cps ''QUUX''), source = cps ''a.com'',
           message = Some (cps ''a.com 1.2.3.4 quux 5''),
           has_timestamp = True, message_length = Some 20, word_count = Some 4\<rparr>"
  note t = severity_normalization [of plain "cps ''quux''" "cps ''QuUx''" "\<lambda>s f. None" "\<lambda>s. None"
      "cps ''a.com 1.2.3.4 1700000000 quux 5''" "[?row]" 0]
  have h: "list_all (\<lambda>c. c < 128) (cps ''quux'')" "list_all (\<lambda>c. c < 128) (cps ''QuUx'')"
      "map ascii_lower (cps ''quux'') = map ascii_lower (cps ''QuUx'')"
    by (simp_all add: cps_def ascii_lower_def)
  have "normalize_severity plain (cps ''quux'') = normalize_severity plain (cps ''QuUx'')"
    using t h by blast
  then have q: "normalize_severity plain (cps ''QuUx'') = cps ''QUUX''"
    by (simp only: normalize_examples)
  have l: "0 < length [?row]" by simp
  have r: "\<exists>raw. raw \<noteq> []
              \<and> cell (parsed_entries plain (cps ''a.com 1.2.3.4 1700000000 quux 5'') ! 0) ''severity'' = Some raw
              \<and> severity ([?row] ! 0) = Some (normalize_severity plain raw)"
    using t parse_quux l by blast
  have s: "severity ([?row] ! 0) = Some (cps ''QUUX'')"
    by simp
  have e: "\<exists>table. parse_logs plain (\<lambda>s f. None) (\<lambda>s. None) (cps ''a.com 1.2.3.4 1700000000 quux 5'') = Inr table
        \<and> 0 < length table
        \<and> (\<exists>raw. raw \<noteq> []
              \<and> cell (parsed_entries plain (cps ''a.com 1.2.3.4 1700000000 quux 5'') ! 0) ''severity'' = Some raw
              \<and> severity (table ! 0) = Some (normalize_severity plain raw))
        \<and> severity (table ! 0) = Some (cps ''QUUX'')"
    using parse_quux l r s by blast
  show ?thesis
    using h q e by (simp only: normalize_examples simp_thms)
qed


section \<open>Batch line numbering\<close>

text \<open>
  C1. The specification has batch parsing number every surviving line by its 1-based
  position in the unsplit text, also when the leading lines of the text are blank. The
  source does not do so for leading blank lines. The loop enumerates the lines
  before it skips the blank ones, so a blank line inside the text leaves a gap: \<open>foo\<close>,
  a blank line and \<open>bar\<close> are numbered 1 and 3. But the source strips the whole text
  before it splits it, so leading blank lines are gone before the count starts: in the text
  of two blank lines followed by \<open>foo\<close>, the line \<open>foo\<close> is the third line, and its
  record carries line number 1.
\<close>

theorem leading_blank_lines_renumber:
  "split_nl blank_blank_foo = [[], [], cps ''foo'']
   \<and> parse_logs u strptime to_datetime blank_blank_foo =
       Inr [\<lparr>line_number = 1, raw_line = cps ''foo'', pattern_used = ''fallback'',
             timestamp = None, severity = Some (cps ''INFO''), source = cps ''unknown'',
             message = Some (cps ''foo''), has_timestamp = False,
             message_length = Some 3, word_count = Some 1\<rparr>]
   \<and> map_sum id (map line_number) (parse_logs u strptime to_datetime foo_blank_bar) = Inr [1, 3]"
  by code_simp


section \<open>Timestamp coercion raises\<close>

text \<open>
  C6. The specification has timestamp coercion fall through on an epoch out of range and
  never raise. The source raises on some tokens: it catches \<open>ValueError\<close> and
  \<open>OSError\<close> around \<open>datetime.fromtimestamp(int(timestamp_str))\<close>, but not the
  \<open>OverflowError\<close> that \<open>fromtimestamp\<close> raises for a number outside \<open>time_t\<close>:
  a token of twenty nines makes the coercion raise, whatever \<open>strptime\<close> and
  \<open>to_datetime\<close> do, and a log line of the custom-domain format that carries this token
  makes batch parsing raise.
\<close>

theorem parse_timestamp_overflow_escapes:
  "parse_timestamp u strptime to_datetime (Some (cps ''99999999999999999999'')) = Inl OverflowError
   \<and> parse_logs u strptime to_datetime (cps ''a.com 1.2.3.4 99999999999999999999 INFO 5'') = Inl OverflowError"
  by code_simp


end
